theory Spec2Isabelle
  imports Main
begin

section \<open>Python strings\<close>

text \<open>
  A Python \<open>str\<close> is a sequence of code points, each below \<open>0x110000\<close>. The surrogate
  code points \<open>0xD800..0xDFFF\<close> are among them: a string decoded from the backend's JSON
  can hold one on its own, and such a string has no UTF-8 encoding.
\<close>

typedef uchar = "{n::nat. n < 0x110000}"
  by (rule exI [of _ 0]) simp

type_synonym pystr = "uchar list"

definition ascii :: "string \<Rightarrow> pystr" where
  "ascii s = map (\<lambda>c. Abs_uchar (of_char c)) s"

definition is_surrogate :: "uchar \<Rightarrow> bool" where
  "is_surrogate c = (0xD800 \<le> Rep_uchar c \<and> Rep_uchar c \<le> 0xDFFF)"

section \<open>Messages, conversations and the session\<close>

text \<open>
  A message is the dictionary \<open>{"role": ..., "content": ...}\<close>; a conversation is a list
  of messages. The role is a string in the source, compared with \<open>"system"\<close>.
\<close>

record message =
  role :: pystr
  content :: pystr

type_synonym chat = "message list"

text \<open>The exceptions the script can raise, by class.\<close>

datatype error =
    FileNotFoundError
  | OSError
  | ValueError
  | UnicodeEncodeError
  | UnicodeDecodeError
  | JSONDecodeError
  | KeyError
  | AttributeError

section \<open>The text of a record\<close>

text \<open>
  \<open>json.dump(chat, f, indent=2, ensure_ascii=False)\<close> writes a list of dictionaries with
  the keys \<open>role\<close> and \<open>content\<close>, in that order. A string is written between double
  quotes; with \<open>ensure_ascii=False\<close> only the double quote, the backslash and the
  characters below \<open>0x20\<close> are escaped (\<open>\n\<close>, \<open>\r\<close>, \<open>\t\<close>, \<open>\b\<close>, \<open>\f\<close>, and
  \<open>\u00xx\<close> with lower-case digits for the others), every other character is written as
  it is. With \<open>indent=2\<close> each item starts a line, indented by two spaces for each level;
  the empty list is \<open>[]\<close>.
\<close>

definition hex_digit :: "nat \<Rightarrow> uchar" where
  "hex_digit d = Abs_uchar (if d < 10 then 0x30 + d else 0x57 + d)"

definition escape_char :: "uchar \<Rightarrow> pystr" where
  "escape_char c =
     (if Rep_uchar c = 0x22 then [Abs_uchar 0x5C, Abs_uchar 0x22]
      else if Rep_uchar c = 0x5C then [Abs_uchar 0x5C, Abs_uchar 0x5C]
      else if Rep_uchar c = 0x0A then [Abs_uchar 0x5C, Abs_uchar 0x6E]
      else if Rep_uchar c = 0x0D then [Abs_uchar 0x5C, Abs_uchar 0x72]
      else if Rep_uchar c = 0x09 then [Abs_uchar 0x5C, Abs_uchar 0x74]
      else if Rep_uchar c = 0x08 then [Abs_uchar 0x5C, Abs_uchar 0x62]
      else if Rep_uchar c = 0x0C then [Abs_uchar 0x5C, Abs_uchar 0x66]
      else if Rep_uchar c < 0x20 then
        [Abs_uchar 0x5C, Abs_uchar 0x75, Abs_uchar 0x30, Abs_uchar 0x30,
         hex_digit (Rep_uchar c div 16), hex_digit (Rep_uchar c mod 16)]
      else [c])"

definition encode_basestring :: "pystr \<Rightarrow> pystr" where
  "encode_basestring s = Abs_uchar 0x22 # concat (map escape_char s) @ [Abs_uchar 0x22]"

definition newline :: pystr where
  "newline = [Abs_uchar 0x0A]"

definition dump_message :: "message \<Rightarrow> pystr" where
  "dump_message m =
     ascii ''{'' @ newline @ ascii ''    '' @
     encode_basestring (ascii ''role'') @ ascii '': '' @ encode_basestring (role m) @
     ascii '','' @ newline @ ascii ''    '' @
     encode_basestring (ascii ''content'') @ ascii '': '' @ encode_basestring (content m) @
     newline @ ascii ''  '' @ ascii ''}''"

fun dump_items :: "chat \<Rightarrow> pystr" where
  "dump_items [] = []"
| "dump_items [m] = dump_message m"
| "dump_items (m # ms) = dump_message m @ ascii '','' @ newline @ ascii ''  '' @ dump_items ms"

definition json_dumps :: "chat \<Rightarrow> pystr" where
  "json_dumps c =
     (if c = [] then ascii ''[]''
      else ascii ''['' @ newline @ ascii ''  '' @ dump_items c @ newline @ ascii '']'')"

section \<open>The reading of a record\<close>

text \<open>
  \<open>json.load\<close>, for the documents that are conversations: a list of objects whose
  members are strings, the keys being \<open>role\<close> and \<open>content\<close> (in any order, a repeated key
  taking its last value, as in a dictionary). White space is space, tab, line feed and
  carriage return. In a string a character below \<open>0x20\<close> is refused, the escapes are
  those of JSON, and a \<open>\uXXXX\<close> of a high surrogate followed by one of a low surrogate is
  one character. Every other document is \<open>JSONDecodeError\<close> here: \<open>json.load\<close> returns
  a value for those that are JSON, which is not a conversation and which this model does
  not represent.
\<close>

definition is_ws :: "uchar \<Rightarrow> bool" where
  "is_ws c =
     (Rep_uchar c = 0x20 \<or> Rep_uchar c = 0x09 \<or> Rep_uchar c = 0x0A \<or> Rep_uchar c = 0x0D)"

definition skip_ws :: "pystr \<Rightarrow> pystr" where
  "skip_ws s = dropWhile is_ws s"

definition hex_val :: "uchar \<Rightarrow> nat option" where
  "hex_val c =
     (if 0x30 \<le> Rep_uchar c \<and> Rep_uchar c \<le> 0x39 then Some (Rep_uchar c - 0x30)
      else if 0x61 \<le> Rep_uchar c \<and> Rep_uchar c \<le> 0x66 then Some (Rep_uchar c - 0x57)
      else if 0x41 \<le> Rep_uchar c \<and> Rep_uchar c \<le> 0x46 then Some (Rep_uchar c - 0x37)
      else None)"

definition hex4 :: "uchar \<Rightarrow> uchar \<Rightarrow> uchar \<Rightarrow> uchar \<Rightarrow> nat option" where
  "hex4 h1 h2 h3 h4 =
     (case (hex_val h1, hex_val h2, hex_val h3, hex_val h4) of
        (Some a, Some b, Some c, Some d) \<Rightarrow> Some (a * 0x1000 + b * 0x100 + c * 0x10 + d)
      | _ \<Rightarrow> None)"

definition simple_escape :: "uchar \<Rightarrow> uchar option" where
  "simple_escape e =
     (if Rep_uchar e = 0x22 then Some (Abs_uchar 0x22)
      else if Rep_uchar e = 0x5C then Some (Abs_uchar 0x5C)
      else if Rep_uchar e = 0x2F then Some (Abs_uchar 0x2F)
      else if Rep_uchar e = 0x62 then Some (Abs_uchar 0x08)
      else if Rep_uchar e = 0x66 then Some (Abs_uchar 0x0C)
      else if Rep_uchar e = 0x6E then Some (Abs_uchar 0x0A)
      else if Rep_uchar e = 0x72 then Some (Abs_uchar 0x0D)
      else if Rep_uchar e = 0x74 then Some (Abs_uchar 0x09)
      else None)"

definition unescape :: "pystr \<Rightarrow> (uchar \<times> pystr) option" where
  "unescape s =
     (case s of
        [] \<Rightarrow> None
      | e # s1 \<Rightarrow>
          if Rep_uchar e = 0x75 then
            (case s1 of
               h1 # h2 # h3 # h4 # s2 \<Rightarrow>
                 (case hex4 h1 h2 h3 h4 of
                    None \<Rightarrow> None
                  | Some n \<Rightarrow>
                      if 0xD800 \<le> n \<and> n \<le> 0xDBFF then
                        (case s2 of
                           b # u # s3 \<Rightarrow>
                             if Rep_uchar b = 0x5C \<and> Rep_uchar u = 0x75 then
                               (case s3 of
                                  g1 # g2 # g3 # g4 # s4 \<Rightarrow>
                                    (case hex4 g1 g2 g3 g4 of
                                       None \<Rightarrow> None
                                     | Some m \<Rightarrow>
                                         if 0xDC00 \<le> m \<and> m \<le> 0xDFFF
                                         then Some (Abs_uchar (0x10000 + (n - 0xD800) * 0x400 +
                                                               (m - 0xDC00)), s4)
                                         else Some (Abs_uchar n, s2))
                                | _ \<Rightarrow> None)
                             else Some (Abs_uchar n, s2)
                         | _ \<Rightarrow> Some (Abs_uchar n, s2))
                      else Some (Abs_uchar n, s2))
             | _ \<Rightarrow> None)
          else (case simple_escape e of None \<Rightarrow> None | Some d \<Rightarrow> Some (d, s1)))"

lemma unescape_length: "unescape s = Some (d, r) \<Longrightarrow> length r < length s"
  by (auto simp add: unescape_def split: list.splits option.splits if_splits)

function scan_string :: "pystr \<Rightarrow> (pystr \<times> pystr) option" where
  "scan_string [] = None"
| "scan_string (c # cs) =
     (if Rep_uchar c = 0x22 then Some ([], cs)
      else if Rep_uchar c = 0x5C then
        (case unescape cs of
           None \<Rightarrow> None
         | Some (d, rest) \<Rightarrow>
             (case scan_string rest of None \<Rightarrow> None | Some (s, r) \<Rightarrow> Some (d # s, r)))
      else if Rep_uchar c < 0x20 then None
      else (case scan_string cs of None \<Rightarrow> None | Some (s, r) \<Rightarrow> Some (c # s, r)))"
  by pat_completeness auto

termination
proof (relation "measure length")
  show "wf (measure length)" by simp
next
  fix c cs x2 d rest
  assume "unescape cs = Some x2" "(d, rest) = x2"
  then have "unescape cs = Some (d, rest)" by simp
  from unescape_length [OF this] show "(rest, c # cs) \<in> measure length" by simp
next
  fix c :: uchar and cs :: pystr
  show "(cs, c # cs) \<in> measure length" by simp
qed

lemma scan_string_length: "scan_string s = Some (x, r) \<Longrightarrow> length r < length s"
proof (induction s arbitrary: x r rule: scan_string.induct)
  case 1
  then show ?case by simp
next
  case (2 c cs)
  show ?case
  proof (cases "Rep_uchar c = 0x22")
    case True
    with "2.prems" show ?thesis by simp
  next
    case q: False
    show ?thesis
    proof (cases "Rep_uchar c = 0x5C")
      case True
      with q "2.prems" obtain d rest s' where
        u: "unescape cs = Some (d, rest)" and s: "scan_string rest = Some (s', r)"
        by (auto split: option.splits)
      from "2.IH"(1) [OF q True u refl s] unescape_length [OF u]
      show ?thesis by simp
    next
      case b: False
      with q "2.prems" obtain s' where
        n: "\<not> Rep_uchar c < 0x20" and s: "scan_string cs = Some (s', r)"
        by (auto split: option.splits if_splits)
      from "2.IH"(2) [OF q b n s] show ?thesis by simp
    qed
  qed
qed

lemma skip_ws_length: "length (skip_ws s) \<le> length s"
  by (simp add: skip_ws_def length_dropWhile_le)


lemma skip_ws_Cons_length: "skip_ws s = c # r \<Longrightarrow> length r < length s"
  using skip_ws_length [of s] by simp

function parse_pairs :: "pystr \<Rightarrow> ((pystr \<times> pystr) list \<times> pystr) option" where
  "parse_pairs s =
     (case scan_string s of
        None \<Rightarrow> None
      | Some (key, s1) \<Rightarrow>
          (case skip_ws s1 of
             [] \<Rightarrow> None
           | colon # s2 \<Rightarrow>
               if Rep_uchar colon \<noteq> 0x3A then None
               else
                 (case skip_ws s2 of
                    [] \<Rightarrow> None
                  | q # s3 \<Rightarrow>
                      if Rep_uchar q \<noteq> 0x22 then None
                      else
                        (case scan_string s3 of
                           None \<Rightarrow> None
                         | Some (v, s4) \<Rightarrow>
                             (case skip_ws s4 of
                                [] \<Rightarrow> None
                              | d # s5 \<Rightarrow>
                                  if Rep_uchar d = 0x7D then Some ([(key, v)], s5)
                                  else if Rep_uchar d = 0x2C then
                                    (case skip_ws s5 of
                                       [] \<Rightarrow> None
                                     | q2 # s6 \<Rightarrow>
                                         if Rep_uchar q2 \<noteq> 0x22 then None
                                         else
                                           (case parse_pairs s6 of
                                              None \<Rightarrow> None
                                            | Some (ps, r) \<Rightarrow> Some ((key, v) # ps, r)))
                                  else None)))))"
  by pat_completeness auto

termination
proof (relation "measure length")
  show "wf (measure length)" by simp
next
  fix s x2 key s1 colon s2 q s3 x2a v s4 d s5 q2 s6
  assume a: "scan_string s = Some x2" "(key, s1) = x2" "skip_ws s1 = colon # s2"
    "skip_ws s2 = q # s3" "scan_string s3 = Some x2a" "(v, s4) = x2a"
    "skip_ws s4 = d # s5" "skip_ws s5 = q2 # s6"
  from a(1,2) have "scan_string s = Some (key, s1)" by simp
  from scan_string_length [OF this] have 1: "length s1 < length s" .
  from a(5,6) have "scan_string s3 = Some (v, s4)" by simp
  from scan_string_length [OF this] have 2: "length s4 < length s3" .
  from skip_ws_Cons_length [OF a(3)] skip_ws_Cons_length [OF a(4)]
    skip_ws_Cons_length [OF a(7)] skip_ws_Cons_length [OF a(8)] 1 2
  show "(s6, s) \<in> measure length" by simp
qed

declare parse_pairs.simps [simp del]

lemma parse_pairs_length: "parse_pairs s = Some (ps, r) \<Longrightarrow> length r < length s"
proof (induction s arbitrary: ps r rule: parse_pairs.induct)
  case (1 s)
  from "1.prems" obtain key s1 colon s2 q s3 v s4 d s5 where
    a: "scan_string s = Some (key, s1)" "skip_ws s1 = colon # s2" "Rep_uchar colon = 0x3A"
       "skip_ws s2 = q # s3" "Rep_uchar q = 0x22" "scan_string s3 = Some (v, s4)"
       "skip_ws s4 = d # s5"
    by (subst (asm) parse_pairs.simps) (auto split: option.splits list.splits if_splits)
  note l = scan_string_length [OF a(1)] skip_ws_Cons_length [OF a(2)]
    skip_ws_Cons_length [OF a(4)] scan_string_length [OF a(6)] skip_ws_Cons_length [OF a(7)]
  show ?case
  proof (cases "Rep_uchar d = 0x7D")
    case True
    with a "1.prems" have "r = s5"
      by (subst (asm) parse_pairs.simps) simp
    with l show ?thesis by simp
  next
    case False
    with a "1.prems" obtain q2 s6 ps' where
      b: "Rep_uchar d = 0x2C" "skip_ws s5 = q2 # s6" "Rep_uchar q2 = 0x22"
         "parse_pairs s6 = Some (ps', r)"
      by (subst (asm) parse_pairs.simps) (auto split: option.splits list.splits if_splits)
    have "length r < length s6"
      using "1.IH" [OF a(1) refl a(2) _ a(4) _ a(6) refl a(7) False b(1) b(2) _ b(4)] a(3) a(5) b(3)
      by simp
    with l skip_ws_Cons_length [OF b(2)] show ?thesis by simp
  qed
qed

definition parse_object :: "pystr \<Rightarrow> ((pystr \<times> pystr) list \<times> pystr) option" where
  "parse_object s =
     (case skip_ws s of
        [] \<Rightarrow> None
      | c # s1 \<Rightarrow>
          if Rep_uchar c = 0x7D then Some ([], s1)
          else if Rep_uchar c = 0x22 then parse_pairs s1
          else None)"

lemma parse_object_length: "parse_object s = Some (ps, r) \<Longrightarrow> length r < length s"
  using skip_ws_length [of s]
  by (auto simp add: parse_object_def split: list.splits if_splits
        dest!: parse_pairs_length skip_ws_Cons_length)

definition dict_message :: "(pystr \<times> pystr) list \<Rightarrow> message option" where
  "dict_message ps =
     (if list_all (\<lambda>(k, v). k = ascii ''role'' \<or> k = ascii ''content'') ps
      then (case map_of (rev ps) (ascii ''role'') of
              None \<Rightarrow> None
            | Some r \<Rightarrow>
                (case map_of (rev ps) (ascii ''content'') of
                   None \<Rightarrow> None
                 | Some c \<Rightarrow> Some \<lparr>role = r, content = c\<rparr>))
      else None)"

function parse_elements :: "pystr \<Rightarrow> (chat \<times> pystr) option" where
  "parse_elements s =
     (case s of
        [] \<Rightarrow> None
      | c # s1 \<Rightarrow>
          if Rep_uchar c \<noteq> 0x7B then None
          else
            (case parse_object s1 of
               None \<Rightarrow> None
             | Some (ps, s2) \<Rightarrow>
                 (case dict_message ps of
                    None \<Rightarrow> None
                  | Some m \<Rightarrow>
                      (case skip_ws s2 of
                         [] \<Rightarrow> None
                       | d # s3 \<Rightarrow>
                           if Rep_uchar d = 0x5D then Some ([m], s3)
                           else if Rep_uchar d = 0x2C then
                             (case parse_elements (skip_ws s3) of
                                None \<Rightarrow> None
                              | Some (ms, r) \<Rightarrow> Some (m # ms, r))
                           else None))))"
  by pat_completeness auto

termination
proof (relation "measure length")
  show "wf (measure length)" by simp
next
  fix s c s1 x2 ps s2 m d s3
  assume a: "s = c # s1" "parse_object s1 = Some x2" "(ps, s2) = x2" "skip_ws s2 = d # s3"
  from a(2,3) have "parse_object s1 = Some (ps, s2)" by simp
  from parse_object_length [OF this] skip_ws_Cons_length [OF a(4)] skip_ws_length [of s3] a(1)
  show "(skip_ws s3, s) \<in> measure length" by simp
qed

declare parse_elements.simps [simp del]

definition json_loads :: "pystr \<Rightarrow> error + chat" where
  "json_loads s =
     (case skip_ws s of
        [] \<Rightarrow> Inl JSONDecodeError
      | c # s1 \<Rightarrow>
          if Rep_uchar c \<noteq> 0x5B then Inl JSONDecodeError
          else
            (case (case skip_ws s1 of
                     [] \<Rightarrow> None
                   | d # s2 \<Rightarrow> if Rep_uchar d = 0x5D then Some ([], s2)
                              else parse_elements (d # s2)) of
               None \<Rightarrow> Inl JSONDecodeError
             | Some (ms, r) \<Rightarrow> if skip_ws r = [] then Inr ms else Inl JSONDecodeError))"

section \<open>The bytes of a file\<close>

text \<open>
  The files are opened with \<open>encoding="utf-8"\<close>. Writing encodes the text and raises
  \<open>UnicodeEncodeError\<close> on a surrogate; reading decodes strictly (no overlong form, no
  surrogate, nothing above \<open>0x10FFFF\<close>) and then, the file being opened in text mode,
  turns \<open>\r\n\<close> and \<open>\r\<close> into \<open>\n\<close>. A byte is a \<open>char\<close>.
\<close>

definition utf8_char :: "uchar \<Rightarrow> nat list" where
  "utf8_char c =
     (let n = Rep_uchar c
      in if n < 0x80 then [n]
         else if n < 0x800 then [0xC0 + n div 0x40, 0x80 + n mod 0x40]
         else if n < 0x10000 then
           [0xE0 + n div 0x1000, 0x80 + n div 0x40 mod 0x40, 0x80 + n mod 0x40]
         else
           [0xF0 + n div 0x40000, 0x80 + n div 0x1000 mod 0x40,
            0x80 + n div 0x40 mod 0x40, 0x80 + n mod 0x40])"

definition utf8_encode :: "pystr \<Rightarrow> error + string" where
  "utf8_encode s =
     (if list_ex is_surrogate s then Inl UnicodeEncodeError
      else Inr (map char_of (concat (map utf8_char s))))"

definition is_cont :: "nat \<Rightarrow> bool" where
  "is_cont b = (0x80 \<le> b \<and> b < 0xC0)"

definition decoded :: "nat \<Rightarrow> (error + pystr) \<Rightarrow> error + pystr" where
  "decoded n r = (case r of Inl e \<Rightarrow> Inl e | Inr s \<Rightarrow> Inr (Abs_uchar n # s))"

fun utf8_decode_bytes :: "nat list \<Rightarrow> error + pystr" where
  "utf8_decode_bytes [] = Inr []"
| "utf8_decode_bytes (b0 # bs) =
     (if b0 < 0x80 then decoded b0 (utf8_decode_bytes bs)
      else if 0xC2 \<le> b0 \<and> b0 < 0xE0 then
        (case bs of
           b1 # bs1 \<Rightarrow>
             if is_cont b1
             then decoded ((b0 - 0xC0) * 0x40 + (b1 - 0x80)) (utf8_decode_bytes bs1)
             else Inl UnicodeDecodeError
         | _ \<Rightarrow> Inl UnicodeDecodeError)
      else if 0xE0 \<le> b0 \<and> b0 < 0xF0 then
        (case bs of
           b1 # b2 # bs2 \<Rightarrow>
             (let n = (b0 - 0xE0) * 0x1000 + (b1 - 0x80) * 0x40 + (b2 - 0x80)
              in if is_cont b1 \<and> is_cont b2 \<and> 0x800 \<le> n \<and> (n < 0xD800 \<or> 0xDFFF < n)
                 then decoded n (utf8_decode_bytes bs2)
                 else Inl UnicodeDecodeError)
         | _ \<Rightarrow> Inl UnicodeDecodeError)
      else if 0xF0 \<le> b0 \<and> b0 < 0xF5 then
        (case bs of
           b1 # b2 # b3 # bs3 \<Rightarrow>
             (let n = (b0 - 0xF0) * 0x40000 + (b1 - 0x80) * 0x1000 + (b2 - 0x80) * 0x40 +
                      (b3 - 0x80)
              in if is_cont b1 \<and> is_cont b2 \<and> is_cont b3 \<and> 0x10000 \<le> n \<and> n < 0x110000
                 then decoded n (utf8_decode_bytes bs3)
                 else Inl UnicodeDecodeError)
         | _ \<Rightarrow> Inl UnicodeDecodeError)
      else Inl UnicodeDecodeError)"

definition utf8_decode :: "string \<Rightarrow> error + pystr" where
  "utf8_decode bs = utf8_decode_bytes (map of_char bs)"

fun translate_newlines :: "pystr \<Rightarrow> pystr" where
  "translate_newlines [] = []"
| "translate_newlines [c] = (if Rep_uchar c = 0x0D then [Abs_uchar 0x0A] else [c])"
| "translate_newlines (c # d # s) =
     (if Rep_uchar c = 0x0D \<and> Rep_uchar d = 0x0A then Abs_uchar 0x0A # translate_newlines s
      else if Rep_uchar c = 0x0D then Abs_uchar 0x0A # translate_newlines (d # s)
      else c # translate_newlines (d # s))"


section \<open>The files and the session\<close>

text \<open>
  The files of the directory \<open>chats\<close>, by path, each with its bytes. The directory is
  flat: the script creates it at start-up and creates nothing but files in it.
\<close>

type_synonym fs = "pystr \<rightharpoonup> string"

text \<open>
  \<open>st.session_state\<close>: the attribute \<open>customer_chats\<close> is absent (\<open>None\<close>) until the
  script creates it; once present it is a dictionary from customer id to conversation.
\<close>

record app_state =
  customer_chats :: "(pystr \<rightharpoonup> chat) option"
  files :: fs

section \<open>Paths\<close>

definition CHAT_DIR :: pystr where
  "CHAT_DIR = ascii ''chats''"

text \<open>\<open>os.path.join\<close> of two components (POSIX).\<close>

definition os_path_join :: "pystr \<Rightarrow> pystr \<Rightarrow> pystr" where
  "os_path_join a b =
     (if b \<noteq> [] \<and> hd b = Abs_uchar 47 then b
      else if a = [] \<or> last a = Abs_uchar 47 then a @ b
      else a @ ascii ''/'' @ b)"

definition chat_file :: "pystr \<Rightarrow> pystr" where
  "chat_file customer_id =
     os_path_join CHAT_DIR (ascii ''customer_'' @ customer_id @ ascii ''.json'')"

definition history_file :: "pystr \<Rightarrow> pystr" where
  "history_file customer_id =
     os_path_join CHAT_DIR (ascii ''customer_'' @ customer_id @ ascii ''_history.json'')"

definition os_path_exists :: "fs \<Rightarrow> pystr \<Rightarrow> bool" where
  "os_path_exists f path = (f path \<noteq> None)"

section \<open>Storage\<close>

text \<open>
  \<open>open(path, "w", encoding="utf-8")\<close> on a POSIX system whose file names are UTF-8.
  The customer id is not validated, so the call can raise:
  \<^item> the path is encoded with the error handler \<open>surrogateescape\<close>, which turns a
    surrogate of \<open>0xDC80..0xDCFF\<close> into one byte and raises \<open>UnicodeEncodeError\<close> on any
    other surrogate;
  \<^item> a NUL in the path raises \<open>ValueError\<close>;
  \<^item> a component of more than 255 bytes raises \<open>OSError\<close>;
  \<^item> a \<open>/\<close> in the file name asks for a subdirectory of \<open>chats\<close>, and there is none:
    \<open>FileNotFoundError\<close>, also for a path that is not in \<open>chats\<close>.

  \<open>open_error\<close> is the exception raised, \<open>None\<close> when the file opens.
\<close>

definition fs_encodable :: "uchar \<Rightarrow> bool" where
  "fs_encodable c =
     (Rep_uchar c < 0xD800 \<or> 0xDFFF < Rep_uchar c \<or>
      (0xDC80 \<le> Rep_uchar c \<and> Rep_uchar c \<le> 0xDCFF))"

definition fs_length :: "pystr \<Rightarrow> nat" where
  "fs_length s = sum_list (map (\<lambda>c. if is_surrogate c then 1 else length (utf8_char c)) s)"

definition open_error :: "pystr \<Rightarrow> error option" where
  "open_error path =
     (let prefix = CHAT_DIR @ ascii ''/'';
          name = drop (length prefix) path
      in if \<not> list_all fs_encodable path then Some UnicodeEncodeError
         else if Abs_uchar 0 \<in> set path then Some ValueError
         else if take (length prefix) path \<noteq> prefix then Some FileNotFoundError
         else if 255 < fs_length (takeWhile (\<lambda>c. c \<noteq> Abs_uchar 47) name) then Some OSError
         else if Abs_uchar 47 \<in> set name then Some FileNotFoundError
         else None)"

text \<open>
  The two \<open>with open(...)\<close> blocks of the script: \<open>json.load(f)\<close> on a file opened for
  reading, \<open>json.dump(chat, f, indent=2, ensure_ascii=False)\<close> on a file opened for
  writing. A call that raises is \<open>Inl\<close>; the state it leaves behind is not observed.
\<close>

definition read_json :: "fs \<Rightarrow> pystr \<Rightarrow> error + chat" where
  "read_json f path =
     (case f path of
        None \<Rightarrow> Inl FileNotFoundError
      | Some bs \<Rightarrow>
          (case utf8_decode bs of
             Inl e \<Rightarrow> Inl e
           | Inr text \<Rightarrow> json_loads (translate_newlines text)))"

definition write_json :: "fs \<Rightarrow> pystr \<Rightarrow> chat \<Rightarrow> error + fs" where
  "write_json f path c =
     (case open_error path of
        Some e \<Rightarrow> Inl e
      | None \<Rightarrow>
          (case utf8_encode (json_dumps c) of
             Inl e \<Rightarrow> Inl e
           | Inr bs \<Rightarrow> Inr (f(path \<mapsto> bs))))"

definition system_message :: "pystr \<Rightarrow> message" where
  "system_message system_prompt = \<lparr>role = ascii ''system'', content = system_prompt\<rparr>"

definition load_chat :: "pystr \<Rightarrow> fs \<Rightarrow> pystr \<Rightarrow> error + chat" where
  "load_chat system_prompt f customer_id =
     (let path = chat_file customer_id
      in if os_path_exists f path then read_json f path
         else Inr [system_message system_prompt])"

definition save_chat :: "fs \<Rightarrow> pystr \<Rightarrow> chat \<Rightarrow> error + fs" where
  "save_chat f customer_id c = write_json f (chat_file customer_id) c"

text \<open>The loop of \<open>save_to_history\<close>: \<open>history\<close> is the accumulator.\<close>

fun append_non_system :: "chat \<Rightarrow> chat \<Rightarrow> chat" where
  "append_non_system history [] = history"
| "append_non_system history (msg # rest) =
     (if role msg \<noteq> ascii ''system''
      then append_non_system (history @ [msg]) rest
      else append_non_system history rest)"

definition save_to_history :: "fs \<Rightarrow> pystr \<Rightarrow> chat \<Rightarrow> error + fs" where
  "save_to_history f customer_id c =
     (let path = history_file customer_id
      in case (if os_path_exists f path then read_json f path else Inr []) of
           Inl e \<Rightarrow> Inl e
         | Inr history \<Rightarrow> write_json f path (append_non_system history c))"

text \<open>
  The read of the history record for display (the sidebar): \<open>None\<close> when the record
  does not exist.
\<close>

definition load_history :: "fs \<Rightarrow> pystr \<Rightarrow> error + chat option" where
  "load_history f customer_id =
     (if os_path_exists f (history_file customer_id)
      then (case read_json f (history_file customer_id) of
              Inl e \<Rightarrow> Inl e
            | Inr history \<Rightarrow> Inr (Some history))
      else Inr None)"

section \<open>The session\<close>

text \<open>
  Lazy load into the session (the block under \<open>if customer_id:\<close>): the dictionary is
  created when absent, and the conversation of a customer not yet in it is loaded.
\<close>

definition ensure_loaded :: "pystr \<Rightarrow> pystr \<Rightarrow> app_state \<Rightarrow> error + app_state" where
  "ensure_loaded system_prompt customer_id st =
     (if customer_id = [] then Inr st
      else
        let chats = (case customer_chats st of None \<Rightarrow> Map.empty | Some m \<Rightarrow> m)
        in case chats customer_id of
             Some c \<Rightarrow> Inr (st\<lparr>customer_chats := Some chats\<rparr>)
           | None \<Rightarrow>
               (case load_chat system_prompt (files st) customer_id of
                  Inl e \<Rightarrow> Inl e
                | Inr c \<Rightarrow> Inr (st\<lparr>customer_chats := Some (chats(customer_id \<mapsto> c))\<rparr>)))"

text \<open>
  The handler of the button \<open>New Chat\<close>: the current conversation goes to the history,
  a fresh one replaces it in the session and on disk.
\<close>

definition new_chat :: "pystr \<Rightarrow> pystr \<Rightarrow> app_state \<Rightarrow> error + app_state" where
  "new_chat system_prompt customer_id st =
     (if customer_id = [] then Inr st
      else case customer_chats st of
             None \<Rightarrow> Inl AttributeError
           | Some chats \<Rightarrow>
               (case chats customer_id of
                  None \<Rightarrow> Inl KeyError
                | Some old_chat \<Rightarrow>
                    (case save_to_history (files st) customer_id old_chat of
                       Inl e \<Rightarrow> Inl e
                     | Inr f \<Rightarrow>
                         (let fresh = [system_message system_prompt]
                          in case save_chat f customer_id fresh of
                               Inl e \<Rightarrow> Inl e
                             | Inr f' \<Rightarrow>
                                 Inr \<lparr>customer_chats = Some (chats(customer_id \<mapsto> fresh)),
                                      files = f'\<rparr>))))"

text \<open>
  Appending a message to the conversation of the session and saving the conversation:
  the two statements the script runs for the user's text and again for the reply.
\<close>

definition append_and_save :: "pystr \<Rightarrow> pystr \<Rightarrow> pystr \<Rightarrow> app_state \<Rightarrow> error + app_state" where
  "append_and_save r customer_id text st =
     (case customer_chats st of
        None \<Rightarrow> Inl AttributeError
      | Some chats \<Rightarrow>
          (case chats customer_id of
             None \<Rightarrow> Inl KeyError
           | Some c \<Rightarrow>
               (let c' = c @ [\<lparr>role = r, content = text\<rparr>]
                in case save_chat (files st) customer_id c' of
                     Inl e \<Rightarrow> Inl e
                   | Inr f' \<Rightarrow>
                       Inr \<lparr>customer_chats = Some (chats(customer_id \<mapsto> c')), files = f'\<rparr>)))"

definition append_user_message :: "pystr \<Rightarrow> pystr \<Rightarrow> app_state \<Rightarrow> error + app_state" where
  "append_user_message = append_and_save (ascii ''user'')"

definition append_assistant_message :: "pystr \<Rightarrow> pystr \<Rightarrow> app_state \<Rightarrow> error + app_state" where
  "append_assistant_message = append_and_save (ascii ''assistant'')"

section \<open>Streaming\<close>

text \<open>
  A chunk of the stream: the script reads \<open>chunk.choices[0].delta.content\<close>, where
  \<open>choices\<close> is a list and \<open>content\<close> is a string or \<open>None\<close>.
\<close>

datatype delta = Delta (delta_content: "pystr option")

datatype choice = Choice (choice_delta: delta)

datatype chunk = Chunk (choices: "choice list")

text \<open>
  What the backend does with a request, as the script observes it: each step either
  yields a chunk or raises an exception \<open>e\<close>, given by its text \<open>str(e)\<close>. An exception
  of the call that creates the stream is a \<open>Raise\<close> in first position.
\<close>

datatype stream_item = Yield chunk | Raise pystr

type_synonym backend = "chat \<Rightarrow> stream_item list"

text \<open>The loop over the stream; \<open>Inl\<close> carries the text of the exception raised.\<close>

fun consume :: "stream_item list \<Rightarrow> pystr \<Rightarrow> pystr + pystr" where
  "consume [] streamed_text = Inr streamed_text"
| "consume (Raise e # rest) streamed_text = Inl e"
| "consume (Yield ch # rest) streamed_text =
     (case choices ch of
        [] \<Rightarrow> Inl (ascii ''list index out of range'')
      | c # _ \<Rightarrow>
          consume rest
            (streamed_text @ (case delta_content (choice_delta c) of None \<Rightarrow> [] | Some s \<Rightarrow> s)))"

text \<open>The prefix of the text that stands for a failed reply: U+26A0, U+FE0F, \<open>" Error: "\<close>.\<close>

definition error_marker :: pystr where
  "error_marker = [Abs_uchar 0x26A0, Abs_uchar 0xFE0F] @ ascii '' Error: ''"

definition stream_reply :: "backend \<Rightarrow> chat \<Rightarrow> pystr" where
  "stream_reply b msgs =
     (case consume (b msgs) [] of
        Inr streamed_text \<Rightarrow> streamed_text
      | Inl e \<Rightarrow> error_marker @ e)"

text \<open>
  The handler of a new user message. The conversation is looked up once here: the
  later lookups of the script use the same key of the same dictionary. Only the stream
  is inside the \<open>try\<close>: an exception of either \<open>save_chat\<close> ends the run.
\<close>

definition handle_user_input ::
  "backend \<Rightarrow> pystr \<Rightarrow> pystr option \<Rightarrow> app_state \<Rightarrow> error + app_state" where
  "handle_user_input b customer_id user_input st =
     (case user_input of
        None \<Rightarrow> Inr st
      | Some text \<Rightarrow>
          (if text = [] \<or> customer_id = [] then Inr st
           else (case customer_chats st of
                   None \<Rightarrow> Inl AttributeError
                 | Some chats \<Rightarrow>
                     (case chats customer_id of
                        None \<Rightarrow> Inl KeyError
                      | Some c \<Rightarrow>
                          (let c1 = c @ [\<lparr>role = ascii ''user'', content = text\<rparr>]
                           in case save_chat (files st) customer_id c1 of
                                Inl e \<Rightarrow> Inl e
                              | Inr f1 \<Rightarrow>
                                  (let streamed_text = stream_reply b c1;
                                       c2 = c1 @ [\<lparr>role = ascii ''assistant'',
                                                   content = streamed_text\<rparr>]
                                   in case save_chat f1 customer_id c2 of
                                        Inl e \<Rightarrow> Inl e
                                      | Inr f2 \<Rightarrow>
                                          Inr \<lparr>customer_chats = Some (chats(customer_id \<mapsto> c2)),
                                               files = f2\<rparr>))))))"

section \<open>One run of the script\<close>

text \<open>
  The inputs of a run are the customer id of the text field, whether the button was
  pressed, and the text submitted in the chat box (\<open>None\<close> when there is none).
  After a reset \<open>st.rerun()\<close> ends the run. Rendering is left out.
\<close>

definition script ::
  "pystr \<Rightarrow> backend \<Rightarrow> pystr \<Rightarrow> bool \<Rightarrow> pystr option \<Rightarrow> app_state \<Rightarrow> error + app_state" where
  "script system_prompt b customer_id clicked submitted st =
     (case ensure_loaded system_prompt customer_id st of
        Inl e \<Rightarrow> Inl e
      | Inr st1 \<Rightarrow>
          (case (if clicked then new_chat system_prompt customer_id st1 else Inr st1) of
             Inl e \<Rightarrow> Inl e
           | Inr st2 \<Rightarrow>
               (if clicked \<and> customer_id \<noteq> [] then Inr st2
                else (case (if customer_id \<noteq> [] then load_history (files st2) customer_id
                            else Inr None) of
                        Inl e \<Rightarrow> Inl e
                      | Inr h \<Rightarrow>
                          (let user_input = (if customer_id \<noteq> [] then submitted else None)
                           in handle_user_input b customer_id user_input st2)))))"

section \<open>Observations used in the statements\<close>

text \<open>The expression \<open>st.session_state.customer_chats[customer_id]\<close>, when it has a value.\<close>

definition session_chat :: "app_state \<Rightarrow> pystr \<Rightarrow> chat option" where
  "session_chat st customer_id =
     (case customer_chats st of None \<Rightarrow> None | Some chats \<Rightarrow> chats customer_id)"

text \<open>The text an event contributes: that of its first choice, nothing when it has none.\<close>

definition delta_text :: "chunk \<Rightarrow> pystr" where
  "delta_text ch =
     (case choices ch of
        [] \<Rightarrow> []
      | c # _ \<Rightarrow> (case delta_content (choice_delta c) of None \<Rightarrow> [] | Some s \<Rightarrow> s))"

text \<open>A backend that answers every request with the same stream.\<close>

definition replay :: "stream_item list \<Rightarrow> backend" where
  "replay items msgs = items"

text \<open>The history log of a customer: empty when the record is absent.\<close>

definition stored_history :: "chat option \<Rightarrow> chat" where
  "stored_history ho = (case ho of None \<Rightarrow> [] | Some h \<Rightarrow> h)"

text \<open>
  Sequences of appends: the calls \<open>appendUserMessage\<close> and \<open>appendAssistantMessage\<close> of
  the session manager, run one after the other until one fails.
\<close>

datatype mutation = UserMessage pystr | AssistantMessage pystr

fun apply_mutation :: "pystr \<Rightarrow> mutation \<Rightarrow> app_state \<Rightarrow> error + app_state" where
  "apply_mutation customer_id (UserMessage text) st = append_user_message customer_id text st"
| "apply_mutation customer_id (AssistantMessage text) st =
     append_assistant_message customer_id text st"

fun apply_mutations :: "pystr \<Rightarrow> mutation list \<Rightarrow> app_state \<Rightarrow> error + app_state" where
  "apply_mutations customer_id [] st = Inr st"
| "apply_mutations customer_id (m # ms) st =
     (case apply_mutation customer_id m st of
        Inl e \<Rightarrow> Inl e
      | Inr st' \<Rightarrow> apply_mutations customer_id ms st')"

fun message_of :: "mutation \<Rightarrow> message" where
  "message_of (UserMessage text) = \<lparr>role = ascii ''user'', content = text\<rparr>"
| "message_of (AssistantMessage text) = \<lparr>role = ascii ''assistant'', content = text\<rparr>"

text \<open>
  The strings that UTF-8 can encode, the conversations made of them, and the bytes that
  \<open>json.dump\<close> writes for such a conversation.
\<close>

definition encodable :: "pystr \<Rightarrow> bool" where
  "encodable s = list_all (\<lambda>c. \<not> is_surrogate c) s"

definition encodable_chat :: "chat \<Rightarrow> bool" where
  "encodable_chat c = list_all (\<lambda>m. encodable (role m) \<and> encodable (content m)) c"

definition file_bytes :: "chat \<Rightarrow> string" where
  "file_bytes c = map char_of (concat (map utf8_char (json_dumps c)))"

definition no_cr :: "pystr \<Rightarrow> bool" where
  "no_cr s = list_all (\<lambda>c. Rep_uchar c \<noteq> 0x0D) s"

text \<open>A customer, a prompt and messages for the concrete instances.\<close>

abbreviation (input) c1 :: pystr where "c1 \<equiv> ascii ''C1''"
abbreviation (input) sp0 :: pystr where "sp0 \<equiv> ascii ''Be helpful.''"
abbreviation (input) sys0 :: message where "sys0 \<equiv> \<lparr>role = ascii ''system'', content = sp0\<rparr>"
abbreviation (input) hello :: message where "hello \<equiv> \<lparr>role = ascii ''user'', content = ascii ''Hello''\<rparr>"
abbreviation (input) hi :: message where "hi \<equiv> \<lparr>role = ascii ''assistant'', content = ascii ''Hi there''\<rparr>"
abbreviation (input) st1 :: app_state where
  "st1 \<equiv> \<lparr>customer_chats = Some [c1 \<mapsto> [sys0]], files = Map.empty\<rparr>"

section \<open>Properties\<close>

subsection \<open>Strings and paths\<close>

lemma uchar_eq_iff [simp]:
  "a < 0x110000 \<Longrightarrow> b < 0x110000 \<Longrightarrow> (Abs_uchar a = Abs_uchar b) = (a = b)"
  by (simp add: Abs_uchar_inject)

lemma of_char_less_256: "(of_char c :: nat) < 256"
proof -
  have "(of_char c :: nat) mod 256 = of_char c" by (rule of_char_mod_256)
  then show ?thesis by (metis mod_less_divisor zero_less_numeral)
qed

lemma Rep_uchar_Abs [simp]: "n < 0x110000 \<Longrightarrow> Rep_uchar (Abs_uchar n) = n"
  by (simp add: Abs_uchar_inverse)

lemma chat_file_neq_history_file [simp]: "chat_file c \<noteq> history_file c"
  by (simp add: chat_file_def history_file_def os_path_join_def CHAT_DIR_def ascii_def)

lemma history_file_neq_chat_file [simp]: "history_file c \<noteq> chat_file c"
  using chat_file_neq_history_file [of c] by (simp del: chat_file_neq_history_file)

lemma append_non_system_filter:
  "append_non_system h c = h @ filter (\<lambda>m. role m \<noteq> ascii ''system'') c"
  by (induction c arbitrary: h) simp_all

subsection \<open>UTF-8\<close>

lemma Rep_uchar_less: "Rep_uchar c < 0x110000"
  using Rep_uchar [of c] by simp

lemma join2: "(n::nat) div 0x40 * 0x40 + n mod 0x40 = n"
  by simp

lemma join3_aux: "(a::nat) * 0x40 + b = q \<Longrightarrow> q * 0x40 + c = n \<Longrightarrow> a * 0x1000 + b * 0x40 + c = n"
  by auto

lemma join3: "(n::nat) div 0x1000 * 0x1000 + n div 0x40 mod 0x40 * 0x40 + n mod 0x40 = n"
proof -
  have d: "n div 0x1000 = n div 0x40 div 0x40"
    by (simp add: div_mult2_eq [symmetric])
  have "n div 0x40 div 0x40 * 0x40 + n div 0x40 mod 0x40 = n div 0x40"
    by (rule join2)
  from join3_aux [OF this join2 [of n]] d show ?thesis by simp
qed

lemma join4_aux:
  "(a::nat) * 0x1000 + b * 0x40 + c = q \<Longrightarrow> q * 0x40 + d = n \<Longrightarrow>
   a * 0x40000 + b * 0x1000 + c * 0x40 + d = n"
  by auto

lemma join4:
  "(n::nat) div 0x40000 * 0x40000 + n div 0x1000 mod 0x40 * 0x1000 +
   n div 0x40 mod 0x40 * 0x40 + n mod 0x40 = n"
proof -
  have d1: "n div 0x40000 = n div 0x40 div 0x1000"
    by (simp add: div_mult2_eq [symmetric])
  have d2: "n div 0x1000 = n div 0x40 div 0x40"
    by (simp add: div_mult2_eq [symmetric])
  from join4_aux [OF join3 [of "n div 0x40"] join2 [of n]] d1 d2 show ?thesis by simp
qed

lemma utf8_char_decode:
  assumes "\<not> is_surrogate c"
  shows "utf8_decode_bytes (utf8_char c @ bs) = decoded (Rep_uchar c) (utf8_decode_bytes bs)"
proof -
  let ?n = "Rep_uchar c"
  have lt: "?n < 0x110000" by (rule Rep_uchar_less)
  from assms have ns: "?n < 0xD800 \<or> 0xDFFF < ?n"
    by (auto simp add: is_surrogate_def)
  consider (a) "?n < 0x80" | (b) "0x80 \<le> ?n" "?n < 0x800"
    | (c) "0x800 \<le> ?n" "?n < 0x10000" | (d) "0x10000 \<le> ?n"
    by linarith
  then show ?thesis
  proof cases
    case a
    then show ?thesis by (simp add: utf8_char_def Let_def)
  next
    case b
    have e: "utf8_char c = [0xC0 + ?n div 0x40, 0x80 + ?n mod 0x40]"
      using b by (simp add: utf8_char_def Let_def)
    have r1: "0xC2 \<le> 0xC0 + ?n div 0x40"
      using b by (simp add: le_div_geq)
    have r2: "0xC0 + ?n div 0x40 < 0xE0"
      using b by (simp add: div_less_iff_less_mult)
    have r3: "\<not> 0xC0 + ?n div 0x40 < 0x80" by simp
    have c1: "is_cont (0x80 + ?n mod 0x40)" by (simp add: is_cont_def)
    have v: "(0xC0 + ?n div 0x40 - 0xC0) * 0x40 + (0x80 + ?n mod 0x40 - 0x80) = ?n"
      by simp
    show ?thesis
      unfolding e by (simp only: append_Cons append_Nil utf8_decode_bytes.simps r1 r2 r3 c1 v
        list.case if_True if_False simp_thms)
  next
    case c
    have e: "utf8_char c =
        [0xE0 + ?n div 0x1000, 0x80 + ?n div 0x40 mod 0x40, 0x80 + ?n mod 0x40]"
      using c by (simp add: utf8_char_def Let_def)
    have r0: "\<not> 0xE0 + ?n div 0x1000 < 0x80" by simp
    have r1: "\<not> (0xC2 \<le> 0xE0 + ?n div 0x1000 \<and> 0xE0 + ?n div 0x1000 < 0xE0)" by simp
    have r2: "0xE0 \<le> 0xE0 + ?n div 0x1000 \<and> 0xE0 + ?n div 0x1000 < 0xF0"
      using c by (simp add: div_less_iff_less_mult)
    have c1: "is_cont (0x80 + ?n div 0x40 mod 0x40)" by (simp add: is_cont_def)
    have c2: "is_cont (0x80 + ?n mod 0x40)" by (simp add: is_cont_def)
    have v: "(0xE0 + ?n div 0x1000 - 0xE0) * 0x1000 +
        (0x80 + ?n div 0x40 mod 0x40 - 0x80) * 0x40 + (0x80 + ?n mod 0x40 - 0x80) = ?n"
      using join3 [of ?n] by simp
    have g: "0x800 \<le> ?n \<and> (?n < 0xD800 \<or> 0xDFFF < ?n)"
      using c ns by simp
    show ?thesis
      unfolding e by (simp only: append_Cons append_Nil utf8_decode_bytes.simps r0 r1 r2 c1 c2 v g
        list.case if_True if_False simp_thms Let_def)
  next
    case d
    have e: "utf8_char c =
        [0xF0 + ?n div 0x40000, 0x80 + ?n div 0x1000 mod 0x40,
         0x80 + ?n div 0x40 mod 0x40, 0x80 + ?n mod 0x40]"
      using d by (simp add: utf8_char_def Let_def)
    have r0: "\<not> 0xF0 + ?n div 0x40000 < 0x80" by simp
    have r1: "\<not> (0xC2 \<le> 0xF0 + ?n div 0x40000 \<and> 0xF0 + ?n div 0x40000 < 0xE0)" by simp
    have r2: "\<not> (0xE0 \<le> 0xF0 + ?n div 0x40000 \<and> 0xF0 + ?n div 0x40000 < 0xF0)" by simp
    have r3: "0xF0 \<le> 0xF0 + ?n div 0x40000 \<and> 0xF0 + ?n div 0x40000 < 0xF5"
      using lt by (simp add: div_less_iff_less_mult)
    have c1: "is_cont (0x80 + ?n div 0x1000 mod 0x40)" by (simp add: is_cont_def)
    have c2: "is_cont (0x80 + ?n div 0x40 mod 0x40)" by (simp add: is_cont_def)
    have c3: "is_cont (0x80 + ?n mod 0x40)" by (simp add: is_cont_def)
    have v: "(0xF0 + ?n div 0x40000 - 0xF0) * 0x40000 +
        (0x80 + ?n div 0x1000 mod 0x40 - 0x80) * 0x1000 +
        (0x80 + ?n div 0x40 mod 0x40 - 0x80) * 0x40 + (0x80 + ?n mod 0x40 - 0x80) = ?n"
      using join4 [of ?n] by simp
    have g: "0x10000 \<le> ?n \<and> ?n < 0x110000"
      using d lt by simp
    show ?thesis
      unfolding e by (simp only: append_Cons append_Nil utf8_decode_bytes.simps r0 r1 r2 r3 c1 c2 c3
        v g list.case if_True if_False simp_thms Let_def)
  qed
qed


lemma utf8_char_byte: "b \<in> set (utf8_char c) \<Longrightarrow> b < 256"
  using Rep_uchar_less [of c]
  by (auto simp add: utf8_char_def Let_def div_less_iff_less_mult split: if_splits)

lemma decoded_Rep: "decoded (Rep_uchar c) (Inr s) = Inr (c # s)"
  by (simp add: decoded_def Rep_uchar_inverse)

lemma utf8_decode_bytes_encode:
  "\<not> list_ex is_surrogate s \<Longrightarrow> utf8_decode_bytes (concat (map utf8_char s)) = Inr s"
  by (induction s) (simp_all add: utf8_char_decode decoded_Rep)

lemma of_char_char_of: "\<forall>b\<in>set bs. b < 256 \<Longrightarrow> map of_char (map char_of bs) = (bs :: nat list)"
  by (induction bs) simp_all

lemma utf8_decode_encode:
  assumes "utf8_encode s = Inr bs"
  shows "utf8_decode bs = Inr s"
proof -
  from assms have ns: "\<not> list_ex is_surrogate s"
    and bs: "bs = map char_of (concat (map utf8_char s))"
    by (auto simp add: utf8_encode_def split: if_splits)
  have "\<forall>b\<in>set (concat (map utf8_char s)). b < 256"
    by (auto dest: utf8_char_byte)
  from of_char_char_of [OF this] utf8_decode_bytes_encode [OF ns] bs
  show ?thesis by (simp add: utf8_decode_def)
qed

subsection \<open>JSON\<close>

lemma ascii_encodable: "encodable (ascii s)"
proof (induction s)
  case Nil
  show ?case by (simp add: encodable_def ascii_def)
next
  case (Cons a s)
  have "(of_char a :: nat) < 0xD800"
    using of_char_less_256 [of a] by linarith
  moreover have "(of_char a :: nat) < 0x110000"
    using of_char_less_256 [of a] by linarith
  ultimately show ?case using Cons by (simp add: encodable_def ascii_def is_surrogate_def)
qed

lemma ascii_eq_iff [simp]: "(ascii s = ascii t) = (s = t)"
proof -
  have "inj (\<lambda>c. Abs_uchar (of_char c :: nat))"
  proof (rule injI)
    fix a b :: char
    assume eq: "Abs_uchar (of_char a :: nat) = Abs_uchar (of_char b)"
    have "(of_char a :: nat) < 0x110000" "(of_char b :: nat) < 0x110000"
      using of_char_less_256 [of a] of_char_less_256 [of b] by linarith+
    with eq have "(of_char a :: nat) = of_char b" by (simp add: Abs_uchar_inject)
    then show "a = b" by simp
  qed
  then show ?thesis by (simp add: ascii_def inj_map_eq_map)
qed

lemma uchar_eqI: "Rep_uchar c = n \<Longrightarrow> c = Abs_uchar n"
  using Rep_uchar_inverse [of c] by simp

lemma hex_val_digit: "d < 16 \<Longrightarrow> hex_val (hex_digit d) = Some d"
  by (simp add: hex_val_def hex_digit_def)

lemma hex4_control:
  assumes "n < 0x20"
  shows "hex4 (Abs_uchar 0x30) (Abs_uchar 0x30) (hex_digit (n div 16)) (hex_digit (n mod 16)) =
           Some n"
proof -
  have "n div 16 < 16" using assms by (simp add: div_less_iff_less_mult)
  then have "hex_val (hex_digit (n div 16)) = Some (n div 16)" by (rule hex_val_digit)
  moreover have "hex_val (hex_digit (n mod 16)) = Some (n mod 16)"
    by (rule hex_val_digit) simp
  moreover have "hex_val (Abs_uchar 0x30) = Some 0" by (simp add: hex_val_def)
  ultimately show ?thesis by (simp add: hex4_def)
qed

lemma unescape_control:
  assumes "n < 0x20"
  shows "unescape (Abs_uchar 0x75 # Abs_uchar 0x30 # Abs_uchar 0x30 #
                   hex_digit (n div 16) # hex_digit (n mod 16) # X) = Some (Abs_uchar n, X)"
  using assms by (simp add: unescape_def hex4_control)

lemma unescape_simple:
  "simple_escape e = Some d \<Longrightarrow> Rep_uchar e \<noteq> 0x75 \<Longrightarrow> unescape (e # X) = Some (d, X)"
  by (simp add: unescape_def)

lemma scan_escape:
  "scan_string (escape_char c @ X) =
     (case scan_string X of None \<Rightarrow> None | Some (s, r) \<Rightarrow> Some (c # s, r))"
proof -
  let ?n = "Rep_uchar c"
  let ?R = "case scan_string X of None \<Rightarrow> None | Some (s, r) \<Rightarrow> Some (c # s, r)"
  have bs: "\<And>e d. simple_escape e = Some d \<Longrightarrow> Rep_uchar e \<noteq> 0x75 \<Longrightarrow> d = c \<Longrightarrow>
      scan_string (Abs_uchar 0x5C # e # X) = ?R"
    by (simp add: unescape_simple)
  consider (q) "?n = 0x22" | (b) "?n = 0x5C" | (n) "?n = 0x0A" | (r) "?n = 0x0D"
    | (t) "?n = 0x09" | (bk) "?n = 0x08" | (f) "?n = 0x0C"
    | (u) "?n < 0x20" "?n \<noteq> 0x0A" "?n \<noteq> 0x0D" "?n \<noteq> 0x09" "?n \<noteq> 0x08" "?n \<noteq> 0x0C"
    | (o) "\<not> ?n < 0x20" "?n \<noteq> 0x22" "?n \<noteq> 0x5C"
    by fastforce
  then show ?thesis
  proof cases
    case q
    then have "escape_char c = [Abs_uchar 0x5C, Abs_uchar 0x22]" by (simp add: escape_char_def)
    moreover have "scan_string (Abs_uchar 0x5C # Abs_uchar 0x22 # X) = ?R"
      by (rule bs) (simp_all add: simple_escape_def uchar_eqI [OF q])
    ultimately show ?thesis by simp
  next
    case b
    then have "escape_char c = [Abs_uchar 0x5C, Abs_uchar 0x5C]" by (simp add: escape_char_def)
    moreover have "scan_string (Abs_uchar 0x5C # Abs_uchar 0x5C # X) = ?R"
      by (rule bs) (simp_all add: simple_escape_def uchar_eqI [OF b])
    ultimately show ?thesis by simp
  next
    case n
    then have "escape_char c = [Abs_uchar 0x5C, Abs_uchar 0x6E]" by (simp add: escape_char_def)
    moreover have "scan_string (Abs_uchar 0x5C # Abs_uchar 0x6E # X) = ?R"
      by (rule bs) (simp_all add: simple_escape_def uchar_eqI [OF n])
    ultimately show ?thesis by simp
  next
    case r
    then have "escape_char c = [Abs_uchar 0x5C, Abs_uchar 0x72]" by (simp add: escape_char_def)
    moreover have "scan_string (Abs_uchar 0x5C # Abs_uchar 0x72 # X) = ?R"
      by (rule bs) (simp_all add: simple_escape_def uchar_eqI [OF r])
    ultimately show ?thesis by simp
  next
    case t
    then have "escape_char c = [Abs_uchar 0x5C, Abs_uchar 0x74]" by (simp add: escape_char_def)
    moreover have "scan_string (Abs_uchar 0x5C # Abs_uchar 0x74 # X) = ?R"
      by (rule bs) (simp_all add: simple_escape_def uchar_eqI [OF t])
    ultimately show ?thesis by simp
  next
    case bk
    then have "escape_char c = [Abs_uchar 0x5C, Abs_uchar 0x62]" by (simp add: escape_char_def)
    moreover have "scan_string (Abs_uchar 0x5C # Abs_uchar 0x62 # X) = ?R"
      by (rule bs) (simp_all add: simple_escape_def uchar_eqI [OF bk])
    ultimately show ?thesis by simp
  next
    case f
    then have "escape_char c = [Abs_uchar 0x5C, Abs_uchar 0x66]" by (simp add: escape_char_def)
    moreover have "scan_string (Abs_uchar 0x5C # Abs_uchar 0x66 # X) = ?R"
      by (rule bs) (simp_all add: simple_escape_def uchar_eqI [OF f])
    ultimately show ?thesis by simp
  next
    case u
    then have "escape_char c =
        [Abs_uchar 0x5C, Abs_uchar 0x75, Abs_uchar 0x30, Abs_uchar 0x30,
         hex_digit (?n div 16), hex_digit (?n mod 16)]"
      by (simp add: escape_char_def)
    moreover have "Abs_uchar ?n = c" by (rule Rep_uchar_inverse)
    ultimately show ?thesis
      using unescape_control [OF u(1), of X] by simp
  next
    case o
    then have "escape_char c = [c]" by (auto simp add: escape_char_def)
    with o show ?thesis by simp
  qed
qed

lemma scan_escaped:
  "scan_string (concat (map escape_char s) @ Abs_uchar 0x22 # rest) = Some (s, rest)"
  by (induction s) (simp_all add: scan_escape)


lemma literals:
  "ascii ''{'' = [Abs_uchar 0x7B]"
  "ascii ''}'' = [Abs_uchar 0x7D]"
  "ascii ''['' = [Abs_uchar 0x5B]"
  "ascii '']'' = [Abs_uchar 0x5D]"
  "ascii ''[]'' = [Abs_uchar 0x5B, Abs_uchar 0x5D]"
  "ascii '','' = [Abs_uchar 0x2C]"
  "ascii '': '' = [Abs_uchar 0x3A, Abs_uchar 0x20]"
  "ascii ''  '' = [Abs_uchar 0x20, Abs_uchar 0x20]"
  "ascii ''    '' = [Abs_uchar 0x20, Abs_uchar 0x20, Abs_uchar 0x20, Abs_uchar 0x20]"
  by (simp_all add: ascii_def)

lemma skip_ws_simps:
  "skip_ws [] = []"
  "skip_ws (Abs_uchar 0x20 # X) = skip_ws X"
  "skip_ws (Abs_uchar 0x0A # X) = skip_ws X"
  "skip_ws (Abs_uchar 0x22 # X) = Abs_uchar 0x22 # X"
  "skip_ws (Abs_uchar 0x2C # X) = Abs_uchar 0x2C # X"
  "skip_ws (Abs_uchar 0x3A # X) = Abs_uchar 0x3A # X"
  "skip_ws (Abs_uchar 0x5B # X) = Abs_uchar 0x5B # X"
  "skip_ws (Abs_uchar 0x5D # X) = Abs_uchar 0x5D # X"
  "skip_ws (Abs_uchar 0x7B # X) = Abs_uchar 0x7B # X"
  "skip_ws (Abs_uchar 0x7D # X) = Abs_uchar 0x7D # X"
  by (simp_all add: skip_ws_def is_ws_def)

lemma parse_pairs_last:
  "parse_pairs (concat (map escape_char k) @ Abs_uchar 0x22 # Abs_uchar 0x3A # Abs_uchar 0x20 #
                encode_basestring v @ Abs_uchar 0x0A # Abs_uchar 0x20 # Abs_uchar 0x20 #
                Abs_uchar 0x7D # rest) =
     Some ([(k, v)], rest)"
  by (subst parse_pairs.simps)
     (simp add: scan_escaped skip_ws_simps encode_basestring_def)

lemma parse_pairs_first:
  "parse_pairs (concat (map escape_char k) @ Abs_uchar 0x22 # Abs_uchar 0x3A # Abs_uchar 0x20 #
                encode_basestring v @ Abs_uchar 0x2C # Abs_uchar 0x0A #
                Abs_uchar 0x20 # Abs_uchar 0x20 # Abs_uchar 0x20 # Abs_uchar 0x20 #
                Abs_uchar 0x22 # X) =
     (case parse_pairs X of None \<Rightarrow> None | Some (ps, r) \<Rightarrow> Some ((k, v) # ps, r))"
  by (subst parse_pairs.simps)
     (simp add: scan_escaped skip_ws_simps encode_basestring_def)

lemma dict_message_pairs:
  "dict_message [(ascii ''role'', role m), (ascii ''content'', content m)] = Some m"
  by (cases m) (simp add: dict_message_def)

lemma dump_message_Cons:
  "dump_message m @ rest =
     Abs_uchar 0x7B # Abs_uchar 0x0A #
     Abs_uchar 0x20 # Abs_uchar 0x20 # Abs_uchar 0x20 # Abs_uchar 0x20 #
     Abs_uchar 0x22 # concat (map escape_char (ascii ''role'')) @
     Abs_uchar 0x22 # Abs_uchar 0x3A # Abs_uchar 0x20 #
     encode_basestring (role m) @ Abs_uchar 0x2C # Abs_uchar 0x0A #
     Abs_uchar 0x20 # Abs_uchar 0x20 # Abs_uchar 0x20 # Abs_uchar 0x20 #
     Abs_uchar 0x22 # concat (map escape_char (ascii ''content'')) @
     Abs_uchar 0x22 # Abs_uchar 0x3A # Abs_uchar 0x20 #
     encode_basestring (content m) @ Abs_uchar 0x0A # Abs_uchar 0x20 # Abs_uchar 0x20 #
     Abs_uchar 0x7D # rest"
  by (simp add: dump_message_def literals newline_def encode_basestring_def)

lemma parse_object_message:
  "\<exists>body. dump_message m @ rest = Abs_uchar 0x7B # body \<and>
     parse_object body = Some ([(ascii ''role'', role m), (ascii ''content'', content m)], rest)"
  unfolding dump_message_Cons
  by (simp add: parse_object_def skip_ws_simps parse_pairs_first parse_pairs_last)

lemma parse_elements_message:
  assumes "skip_ws rest = d # s3"
  shows "parse_elements (dump_message m @ rest) =
           (if Rep_uchar d = 0x5D then Some ([m], s3)
            else if Rep_uchar d = 0x2C then
              (case parse_elements (skip_ws s3) of
                 None \<Rightarrow> None
               | Some (ms, r) \<Rightarrow> Some (m # ms, r))
            else None)"
proof -
  from parse_object_message [of m rest] obtain body where
    b: "dump_message m @ rest = Abs_uchar 0x7B # body" and
    p: "parse_object body =
          Some ([(ascii ''role'', role m), (ascii ''content'', content m)], rest)"
    by blast
  show ?thesis
    unfolding b
    by (subst parse_elements.simps) (simp add: p dict_message_pairs assms)
qed

lemma skip_ws_dump_message: "skip_ws (dump_message m @ rest) = dump_message m @ rest"
  unfolding dump_message_Cons by (simp add: skip_ws_simps)

lemma skip_ws_dump_items:
  "skip_ws (dump_items (m # ms) @ rest) = dump_items (m # ms) @ rest"
  using skip_ws_dump_message
  by (cases ms) simp_all

lemma parse_elements_items:
  "parse_elements (dump_items (m # ms) @ Abs_uchar 0x0A # Abs_uchar 0x5D # rest) =
     Some (m # ms, rest)"
proof (induction ms arbitrary: m)
  case Nil
  have "skip_ws (Abs_uchar 0x0A # Abs_uchar 0x5D # rest) = Abs_uchar 0x5D # rest"
    by (simp add: skip_ws_simps)
  from parse_elements_message [OF this, of m] show ?case by simp
next
  case (Cons m' ms)
  let ?tail = "dump_items (m' # ms) @ Abs_uchar 0x0A # Abs_uchar 0x5D # rest"
  have s: "skip_ws (Abs_uchar 0x2C # Abs_uchar 0x0A # Abs_uchar 0x20 # Abs_uchar 0x20 # ?tail) =
             Abs_uchar 0x2C # Abs_uchar 0x0A # Abs_uchar 0x20 # Abs_uchar 0x20 # ?tail"
    by (simp add: skip_ws_simps)
  have t: "skip_ws (Abs_uchar 0x0A # Abs_uchar 0x20 # Abs_uchar 0x20 # ?tail) = ?tail"
    using skip_ws_dump_items [of m' ms] by (simp add: skip_ws_simps)
  have e: "dump_items (m # m' # ms) @ Abs_uchar 0x0A # Abs_uchar 0x5D # rest =
          dump_message m @ Abs_uchar 0x2C # Abs_uchar 0x0A # Abs_uchar 0x20 # Abs_uchar 0x20 #
          ?tail"
    by (simp add: literals newline_def)
  have r: "parse_elements
             (dump_message m @ Abs_uchar 0x2C # Abs_uchar 0x0A # Abs_uchar 0x20 #
              Abs_uchar 0x20 # ?tail) = Some (m # m' # ms, rest)"
    using parse_elements_message [OF s, of m] t Cons.IH [of m'] by simp
  show ?case by (simp only: e r)
qed

lemma json_loads_dumps: "json_loads (json_dumps c) = Inr c"
proof (cases c)
  case Nil
  then show ?thesis
    by (simp add: json_dumps_def json_loads_def literals skip_ws_simps)
next
  case (Cons m ms)
  have d: "json_dumps c =
             Abs_uchar 0x5B # Abs_uchar 0x0A # Abs_uchar 0x20 # Abs_uchar 0x20 #
             dump_items (m # ms) @ Abs_uchar 0x0A # Abs_uchar 0x5D # []"
    using Cons by (simp add: json_dumps_def literals newline_def)
  obtain body where b: "dump_message m @ [] = Abs_uchar 0x7B # body"
    using parse_object_message [of m "[]"] by blast
  have "\<exists>x xs. dump_items (m # ms) @ Abs_uchar 0x0A # Abs_uchar 0x5D # [] = x # xs \<and>
          Rep_uchar x = 0x7B"
    using b by (cases ms) simp_all
  then obtain x xs where
    e: "dump_items (m # ms) @ Abs_uchar 0x0A # Abs_uchar 0x5D # [] = x # xs" and
    x: "Rep_uchar x = 0x7B"
    by blast
  have w: "skip_ws (x # xs) = x # xs"
    using skip_ws_dump_items [of m ms "Abs_uchar 0x0A # Abs_uchar 0x5D # []"] e by simp
  have p: "parse_elements (x # xs) = Some (c, [])"
    using parse_elements_items [of m ms "[]"] e Cons by simp
  show ?thesis
    unfolding d e
    by (simp add: json_loads_def skip_ws_simps w x p)
qed

lemma no_cr_simps:
  "no_cr []"
  "no_cr (c # s) = (Rep_uchar c \<noteq> 0x0D \<and> no_cr s)"
  "no_cr (s @ t) = (no_cr s \<and> no_cr t)"
  by (simp_all add: no_cr_def)

lemma translate_newlines_no_cr: "no_cr s \<Longrightarrow> translate_newlines s = s"
  by (induction s rule: translate_newlines.induct) (simp_all add: no_cr_simps)

lemma hex_digit_Rep: "d < 16 \<Longrightarrow> Rep_uchar (hex_digit d) = (if d < 10 then 0x30 + d else 0x57 + d)"
  by (simp add: hex_digit_def)

lemma control_hex: "Rep_uchar c < 0x20 \<Longrightarrow> Rep_uchar c div 16 < 16"
  by (simp add: div_less_iff_less_mult)

lemma no_cr_escape_char: "no_cr (escape_char c)"
  using control_hex [of c]
  by (auto simp add: escape_char_def no_cr_simps hex_digit_Rep)

lemma no_cr_escaped: "no_cr (concat (map escape_char s))"
  by (induction s) (simp_all add: no_cr_simps no_cr_escape_char)

lemma no_cr_basestring: "no_cr (encode_basestring s)"
  by (simp add: encode_basestring_def no_cr_simps no_cr_escaped)

lemma no_cr_dump_message: "no_cr (dump_message m)"
  by (simp add: dump_message_def literals newline_def no_cr_simps no_cr_basestring)

lemma no_cr_dump_items: "no_cr (dump_items c)"
  by (induction c rule: dump_items.induct)
     (simp_all add: literals newline_def no_cr_simps no_cr_dump_message)

lemma no_cr_json_dumps: "no_cr (json_dumps c)"
  by (simp add: json_dumps_def literals newline_def no_cr_simps no_cr_dump_items)

lemma encodable_simps:
  "encodable []"
  "encodable (c # s) = (\<not> is_surrogate c \<and> encodable s)"
  "encodable (s @ t) = (encodable s \<and> encodable t)"
  by (simp_all add: encodable_def)

lemma encodable_escape_char: "\<not> is_surrogate c \<Longrightarrow> encodable (escape_char c)"
  using control_hex [of c]
  by (auto simp add: escape_char_def encodable_simps is_surrogate_def hex_digit_Rep)

lemma encodable_escaped: "encodable s \<Longrightarrow> encodable (concat (map escape_char s))"
  by (induction s) (simp_all add: encodable_simps encodable_escape_char)

lemma encodable_basestring: "encodable s \<Longrightarrow> encodable (encode_basestring s)"
  by (simp add: encode_basestring_def encodable_simps encodable_escaped is_surrogate_def)

lemma encodable_dump_message:
  "encodable (role m) \<Longrightarrow> encodable (content m) \<Longrightarrow> encodable (dump_message m)"
  by (simp add: dump_message_def newline_def encodable_simps encodable_basestring
        ascii_encodable is_surrogate_def)

lemma encodable_dump_items:
  "encodable_chat c \<Longrightarrow> encodable (dump_items c)"
  by (induction c rule: dump_items.induct)
     (simp_all add: newline_def encodable_simps encodable_dump_message ascii_encodable
        is_surrogate_def encodable_chat_def)

lemma encodable_json_dumps:
  "encodable_chat c \<Longrightarrow> encodable (json_dumps c)"
  by (simp add: json_dumps_def newline_def encodable_simps encodable_dump_items ascii_encodable
        is_surrogate_def)

lemma decode_encode_dumps:
  assumes "utf8_encode (json_dumps c) = Inr bs"
  shows "(case utf8_decode bs of Inl e \<Rightarrow> Inl e
          | Inr text \<Rightarrow> json_loads (translate_newlines text)) = Inr c"
  using utf8_decode_encode [OF assms] translate_newlines_no_cr [OF no_cr_json_dumps [of c]]
    json_loads_dumps [of c]
  by simp

subsection \<open>The store\<close>

lemma encodable_iff: "encodable s = (\<not> list_ex is_surrogate s)"
  by (simp add: encodable_def list_all_iff list_ex_iff)

lemma utf8_encode_Inr:
  "utf8_encode (json_dumps c) = Inr bs \<Longrightarrow> bs = file_bytes c"
  by (auto simp add: utf8_encode_def file_bytes_def split: if_splits)

lemma utf8_encode_dumps:
  "encodable_chat c \<Longrightarrow> utf8_encode (json_dumps c) = Inr (file_bytes c)"
  using encodable_json_dumps [of c]
  by (simp add: utf8_encode_def file_bytes_def encodable_iff)

lemma write_json_Inr:
  assumes "write_json f p c = Inr f'"
  shows "utf8_encode (json_dumps c) = Inr (file_bytes c) \<and> f' = f(p \<mapsto> file_bytes c)"
proof -
  from assms obtain bs where e: "utf8_encode (json_dumps c) = Inr bs" and f': "f' = f(p \<mapsto> bs)"
    by (auto simp add: write_json_def split: option.splits sum.splits)
  from utf8_encode_Inr [OF e] e f' show ?thesis by simp
qed

lemma read_file_bytes:
  assumes "utf8_encode (json_dumps c) = Inr (file_bytes c)" and "f p = Some (file_bytes c)"
  shows "read_json f p = Inr c"
  using decode_encode_dumps [OF assms(1)] assms(2) by (simp add: read_json_def)

lemma read_write_same:
  assumes "write_json f p c = Inr f'"
  shows "read_json f' p = Inr c"
proof -
  note w = write_json_Inr [OF assms]
  from w have "f' p = Some (file_bytes c)" by simp
  from read_file_bytes [where f = f' and p = p, OF conjunct1 [OF w] this] show ?thesis .
qed

lemma read_write_other:
  "write_json f p c = Inr f' \<Longrightarrow> q \<noteq> p \<Longrightarrow> read_json f' q = read_json f q"
  using write_json_Inr [of f p c f'] by (simp add: read_json_def)

lemma exists_write:
  "write_json f p c = Inr f' \<Longrightarrow> os_path_exists f' q = (q = p \<or> os_path_exists f q)"
  using write_json_Inr [of f p c f'] by (auto simp add: os_path_exists_def)

lemma write_json_succeeds:
  "open_error p = None \<Longrightarrow> encodable_chat c \<Longrightarrow>
   write_json f p c = Inr (f(p \<mapsto> file_bytes c))"
  by (simp add: write_json_def utf8_encode_dumps)

lemma read_json_file_bytes:
  "encodable_chat c \<Longrightarrow> f p = Some (file_bytes c) \<Longrightarrow> read_json f p = Inr c"
  using read_file_bytes [where f = f and p = p and c = c] utf8_encode_dumps [of c] by simp

lemma load_chat_save_chat:
  "save_chat f cid c = Inr f' \<Longrightarrow> load_chat sp f' cid = Inr c"
  by (simp add: load_chat_def save_chat_def read_write_same exists_write)

lemma read_chat_save_chat:
  "save_chat f cid c = Inr f' \<Longrightarrow>
   os_path_exists f' (chat_file cid) \<and> read_json f' (chat_file cid) = Inr c"
  by (simp add: save_chat_def read_write_same exists_write)

lemma load_history_save_chat:
  "save_chat f cid c = Inr f' \<Longrightarrow> load_history f' cid = load_history f cid"
  by (simp add: load_history_def save_chat_def read_write_other exists_write)

lemma load_history_write:
  "write_json f (history_file cid) h = Inr f' \<Longrightarrow> load_history f' cid = Inr (Some h)"
  by (simp add: load_history_def read_write_same exists_write)

lemma save_to_history_result:
  assumes "save_to_history f cid c = Inr f'" and "load_history f cid = Inr ho"
  shows "write_json f (history_file cid)
           (stored_history ho @ filter (\<lambda>m. role m \<noteq> ascii ''system'') c) = Inr f'"
  using assms
  by (auto simp add: load_history_def save_to_history_def stored_history_def
        append_non_system_filter split: if_splits sum.splits)

subsection \<open>The stream\<close>

lemma consume_yields:
  "\<forall>ch\<in>set chunks. choices ch \<noteq> [] \<Longrightarrow>
   consume (map Yield chunks) acc = Inr (acc @ concat (map delta_text chunks))"
  by (induction chunks arbitrary: acc) (auto simp add: delta_text_def split: list.splits)

lemma consume_raise:
  "\<forall>ch\<in>set chunks. choices ch \<noteq> [] \<Longrightarrow>
   consume (map Yield chunks @ Raise e # rest) acc = Inl e"
  by (induction chunks arbitrary: acc) (auto split: list.splits)

lemma stream_reply_yields:
  assumes "b msgs = map Yield chunks" and "\<forall>ch\<in>set chunks. choices ch \<noteq> []"
  shows "stream_reply b msgs = concat (map delta_text chunks)"
  using consume_yields [OF assms(2), of "[]"] assms(1) by (simp add: stream_reply_def)

lemma stream_reply_raise:
  assumes "b msgs = map Yield chunks @ Raise e # rest"
    and "\<forall>ch\<in>set chunks. choices ch \<noteq> []"
  shows "stream_reply b msgs = error_marker @ e"
  using consume_raise [OF assms(2), of e rest "[]"] assms(1) by (simp add: stream_reply_def)

subsection \<open>The operations\<close>

lemma append_and_save_result:
  assumes "session_chat st cid = Some c"
    and "append_and_save r cid text st = Inr st'"
  shows "session_chat st' cid = Some (c @ [\<lparr>role = r, content = text\<rparr>]) \<and>
         save_chat (files st) cid (c @ [\<lparr>role = r, content = text\<rparr>]) = Inr (files st')"
  using assms
  by (auto simp add: append_and_save_def session_chat_def Let_def
        split: option.splits sum.splits)

lemma apply_mutation_result:
  assumes "session_chat st cid = Some c"
    and "apply_mutation cid m st = Inr st'"
  shows "session_chat st' cid = Some (c @ [message_of m]) \<and>
         save_chat (files st) cid (c @ [message_of m]) = Inr (files st')"
  using append_and_save_result [OF assms(1)] assms(2)
  by (cases m) (simp_all add: append_user_message_def append_assistant_message_def)

lemma apply_mutations_result:
  assumes "session_chat st cid = Some c" and "ms \<noteq> []"
    and "apply_mutations cid ms st = Inr st'"
  shows "session_chat st' cid = Some (c @ map message_of ms) \<and>
         (\<exists>f. save_chat f cid (c @ map message_of ms) = Inr (files st'))"
  using assms
proof (induction ms arbitrary: st c)
  case Nil
  then show ?case by simp
next
  case (Cons m ms)
  from Cons.prems(3) obtain st1 where st1: "apply_mutation cid m st = Inr st1"
    and rest: "apply_mutations cid ms st1 = Inr st'"
    by (auto split: sum.splits)
  note r1 = apply_mutation_result [OF Cons.prems(1) st1]
  show ?case
  proof (cases "ms = []")
    case True
    with r1 rest show ?thesis by auto
  next
    case False
    from Cons.IH [OF conjunct1 [OF r1] False rest] show ?thesis by simp
  qed
qed

lemma new_chat_result:
  assumes "customer_id \<noteq> []"
    and "session_chat st customer_id = Some old_chat"
    and "new_chat system_prompt customer_id st = Inr st'"
  shows "\<exists>f. save_to_history (files st) customer_id old_chat = Inr f \<and>
           save_chat f customer_id [system_message system_prompt] = Inr (files st') \<and>
           session_chat st' customer_id = Some [system_message system_prompt]"
  using assms
  by (auto simp add: new_chat_def session_chat_def Let_def split: option.splits sum.splits)

lemma handle_user_input_result:
  assumes "customer_id \<noteq> []" and "text \<noteq> []"
    and "session_chat st customer_id = Some c"
    and "save_chat (files st) customer_id (c @ [\<lparr>role = ascii ''user'', content = text\<rparr>]) = Inr f1"
    and "save_chat f1 customer_id
           (c @ [\<lparr>role = ascii ''user'', content = text\<rparr>,
                 \<lparr>role = ascii ''assistant'',
                  content = stream_reply b (c @ [\<lparr>role = ascii ''user'', content = text\<rparr>])\<rparr>]) =
         Inr f2"
  shows "\<exists>st'. handle_user_input b customer_id (Some text) st = Inr st' \<and>
           session_chat st' customer_id =
             Some (c @ [\<lparr>role = ascii ''user'', content = text\<rparr>,
                        \<lparr>role = ascii ''assistant'',
                         content = stream_reply b (c @ [\<lparr>role = ascii ''user'', content = text\<rparr>])\<rparr>]) \<and>
           files st' = f2"
proof -
  from assms(3) obtain chats where chats:
    "customer_chats st = Some chats" "chats customer_id = Some c"
    by (auto simp add: session_chat_def split: option.splits)
  let ?c2 = "c @ [\<lparr>role = ascii ''user'', content = text\<rparr>,
                  \<lparr>role = ascii ''assistant'',
                   content = stream_reply b (c @ [\<lparr>role = ascii ''user'', content = text\<rparr>])\<rparr>]"
  let ?st' = "\<lparr>customer_chats = Some (chats(customer_id \<mapsto> ?c2)), files = f2\<rparr>"
  have "handle_user_input b customer_id (Some text) st = Inr ?st'"
    using assms(1,2,4,5) chats by (simp add: handle_user_input_def Let_def)
  moreover have "session_chat ?st' customer_id = Some ?c2"
    by (simp add: session_chat_def)
  moreover have "files ?st' = f2"
    by simp
  ultimately show ?thesis by blast
qed

subsection \<open>The concrete instances\<close>

lemma c1_nonempty: "c1 \<noteq> []"
  by (simp add: ascii_def)

lemma hello_nonempty: "ascii ''Hello'' \<noteq> []"
  by (simp add: ascii_def)

lemma st1_chat: "session_chat st1 c1 = Some [sys0]"
  by (simp add: session_chat_def)


lemma c1_chat_file_opens: "open_error (chat_file c1) = None"
  by (simp add: open_error_def chat_file_def os_path_join_def CHAT_DIR_def ascii_def
        fs_encodable_def fs_length_def is_surrogate_def utf8_char_def Let_def)

lemma c1_history_file_opens: "open_error (history_file c1) = None"
  by (simp add: open_error_def history_file_def os_path_join_def CHAT_DIR_def ascii_def
        fs_encodable_def fs_length_def is_surrogate_def utf8_char_def Let_def)

lemma ascii_chat:
  "encodable_chat []"
  "encodable_chat c \<Longrightarrow> encodable_chat (\<lparr>role = ascii r, content = ascii t\<rparr> # c)"
  by (simp_all add: encodable_chat_def ascii_encodable)

lemma marker_chat:
  "encodable_chat c \<Longrightarrow>
   encodable_chat (c @ [\<lparr>role = ascii r,
                          content = Abs_uchar 0x26A0 # Abs_uchar 0xFE0F # ascii t\<rparr>])"
  by (simp add: encodable_chat_def ascii_encodable encodable_simps is_surrogate_def)

lemma read_json_upd:
  "encodable_chat c \<Longrightarrow> read_json (f(p \<mapsto> file_bytes c)) p = Inr c"
  by (simp add: read_json_file_bytes)

lemma save_chat_c1:
  "encodable_chat c \<Longrightarrow> save_chat f c1 c = Inr (f(chat_file c1 \<mapsto> file_bytes c))"
  by (simp add: save_chat_def write_json_succeeds c1_chat_file_opens)

lemma file_bytes_empty: "file_bytes [] = ''[]''"
  by (simp add: file_bytes_def json_dumps_def ascii_def utf8_char_def Let_def char_of_def
        bit_Suc_0_iff)

lemma load_history_file_bytes:
  "encodable_chat h \<Longrightarrow> f (history_file cid) = Some (file_bytes h) \<Longrightarrow>
   load_history f cid = Inr (Some h)"
  by (simp add: load_history_def os_path_exists_def read_json_file_bytes)

section \<open>The claims\<close>

text \<open>
  Claim C3: when \<open>save_to_history\<close> returns, the history record of the customer is the
  history it held before (empty when the record was absent) followed by the messages of
  the conversation whose role is not \<open>system\<close>, in their order.
\<close>

theorem save_to_history_appends:
  assumes "load_history f customer_id = Inr ho"
    and "save_to_history f customer_id c = Inr f'"
  shows "load_history f' customer_id =
           Inr (Some (stored_history ho @ filter (\<lambda>m. role m \<noteq> ascii ''system'') c))"
  by (rule load_history_write [OF save_to_history_result [OF assms(2) assms(1)]])

theorem save_to_history_appends_witness:
  "load_history [history_file c1 \<mapsto> file_bytes [hello]] c1 = Inr (Some [hello]) \<and>
   save_to_history [history_file c1 \<mapsto> file_bytes [hello]] c1 [sys0, hello, hi] =
     Inr [history_file c1 \<mapsto> file_bytes [hello, hello, hi]] \<and>
   load_history [history_file c1 \<mapsto> file_bytes [hello, hello, hi]] c1 = Inr (Some [hello, hello, hi])"
proof -
  let ?f = "[history_file c1 \<mapsto> file_bytes [hello]]"
  have h1: "load_history ?f c1 = Inr (Some [hello])"
    by (simp add: load_history_file_bytes ascii_chat)
  have h2: "save_to_history ?f c1 [sys0, hello, hi] =
              Inr [history_file c1 \<mapsto> file_bytes [hello, hello, hi]]"
    by (simp add: save_to_history_def os_path_exists_def read_json_upd
          write_json_succeeds c1_history_file_opens ascii_chat)
  from save_to_history_appends [OF h1 h2]
  have c: "load_history [history_file c1 \<mapsto> file_bytes [hello, hello, hi]] c1 =
             Inr (Some [hello, hello, hi])"
    by (simp add: stored_history_def)
  show ?thesis by (rule conjI [OF h1 conjI [OF h2 c]])
qed

text \<open>
  Claim C2: when a non-empty sequence of appends of user and assistant messages to a
  loaded conversation returns, hence after each append that returns, the active record
  exists and reads back as the conversation of the session, which is the old one
  followed by the appended messages.
\<close>

theorem write_through:
  assumes "session_chat st customer_id = Some c" and "ms \<noteq> []"
    and "apply_mutations customer_id ms st = Inr st'"
  shows "session_chat st' customer_id = Some (c @ map message_of ms) \<and>
         os_path_exists (files st') (chat_file customer_id) \<and>
         read_json (files st') (chat_file customer_id) = Inr (c @ map message_of ms) \<and>
         load_chat system_prompt (files st') customer_id = Inr (c @ map message_of ms)"
proof -
  from apply_mutations_result [OF assms] obtain f where
    s: "session_chat st' customer_id = Some (c @ map message_of ms)" and
    w: "save_chat f customer_id (c @ map message_of ms) = Inr (files st')"
    by blast
  from s read_chat_save_chat [OF w] load_chat_save_chat [OF w, of system_prompt]
  show ?thesis by simp
qed

theorem write_through_witness:
  "session_chat st1 c1 = Some [sys0] \<and>
   [UserMessage (ascii ''Hello''), AssistantMessage (ascii ''Hi there'')] \<noteq> [] \<and>
   apply_mutations c1 [UserMessage (ascii ''Hello''), AssistantMessage (ascii ''Hi there'')] st1 =
     Inr \<lparr>customer_chats = Some [c1 \<mapsto> [sys0, hello, hi]],
          files = [chat_file c1 \<mapsto> file_bytes [sys0, hello, hi]]\<rparr> \<and>
   session_chat \<lparr>customer_chats = Some [c1 \<mapsto> [sys0, hello, hi]],
                 files = [chat_file c1 \<mapsto> file_bytes [sys0, hello, hi]]\<rparr> c1 = Some [sys0, hello, hi] \<and>
   os_path_exists [chat_file c1 \<mapsto> file_bytes [sys0, hello, hi]] (chat_file c1) \<and>
   read_json [chat_file c1 \<mapsto> file_bytes [sys0, hello, hi]] (chat_file c1) = Inr [sys0, hello, hi] \<and>
   load_chat sp0 [chat_file c1 \<mapsto> file_bytes [sys0, hello, hi]] c1 = Inr [sys0, hello, hi]"
proof -
  let ?ms = "[UserMessage (ascii ''Hello''), AssistantMessage (ascii ''Hi there'')]"
  let ?st' = "\<lparr>customer_chats = Some [c1 \<mapsto> [sys0, hello, hi]],
               files = [chat_file c1 \<mapsto> file_bytes [sys0, hello, hi]]\<rparr>"
  have h2: "?ms \<noteq> []" by simp
  have h3: "apply_mutations c1 ?ms st1 = Inr ?st'"
    by (simp add: append_user_message_def append_assistant_message_def append_and_save_def
          save_chat_c1 ascii_chat Let_def)
  from write_through [OF st1_chat h2 h3, of sp0]
  have c: "session_chat ?st' c1 = Some [sys0, hello, hi] \<and>
      os_path_exists [chat_file c1 \<mapsto> file_bytes [sys0, hello, hi]] (chat_file c1) \<and>
      read_json [chat_file c1 \<mapsto> file_bytes [sys0, hello, hi]] (chat_file c1) = Inr [sys0, hello, hi] \<and>
      load_chat sp0 [chat_file c1 \<mapsto> file_bytes [sys0, hello, hi]] c1 = Inr [sys0, hello, hi]"
    by simp
  show ?thesis by (rule conjI [OF st1_chat conjI [OF h2 conjI [OF h3 c]]])
qed



text \<open>
  Claim C7: when \<open>New Chat\<close> on a conversation that holds only the system message
  returns, the messages of the history log are those it held before.
\<close>

theorem reset_fresh_conversation_keeps_history:
  assumes "customer_id \<noteq> []"
    and "session_chat st customer_id = Some [m]"
    and "role m = ascii ''system''"
    and "load_history (files st) customer_id = Inr ho"
    and "new_chat system_prompt customer_id st = Inr st'"
  shows "load_history (files st') customer_id = Inr (Some (stored_history ho))"
proof -
  from new_chat_result [OF assms(1,2,5)] obtain f where
    h: "save_to_history (files st) customer_id [m] = Inr f" and
    w: "save_chat f customer_id [system_message system_prompt] = Inr (files st')"
    by blast
  have "load_history f customer_id =
          Inr (Some (stored_history ho @ filter (\<lambda>m. role m \<noteq> ascii ''system'') [m]))"
    by (rule load_history_write [OF save_to_history_result [OF h assms(4)]])
  with load_history_save_chat [OF w] assms(3) show ?thesis by simp
qed

theorem reset_fresh_conversation_keeps_history_witness:
  "c1 \<noteq> [] \<and>
   session_chat \<lparr>customer_chats = Some [c1 \<mapsto> [sys0]], files = [history_file c1 \<mapsto> file_bytes [hello, hi]]\<rparr> c1 =
     Some [sys0] \<and>
   role sys0 = ascii ''system'' \<and>
   load_history [history_file c1 \<mapsto> file_bytes [hello, hi]] c1 = Inr (Some [hello, hi]) \<and>
   new_chat sp0 c1
     \<lparr>customer_chats = Some [c1 \<mapsto> [sys0]], files = [history_file c1 \<mapsto> file_bytes [hello, hi]]\<rparr> =
     Inr \<lparr>customer_chats = Some [c1 \<mapsto> [sys0]],
          files = [history_file c1 \<mapsto> file_bytes [hello, hi], chat_file c1 \<mapsto> file_bytes [sys0]]\<rparr> \<and>
   load_history [history_file c1 \<mapsto> file_bytes [hello, hi], chat_file c1 \<mapsto> file_bytes [sys0]] c1 =
     Inr (Some [hello, hi])"
proof -
  let ?f = "[history_file c1 \<mapsto> file_bytes [hello, hi]]"
  let ?st = "\<lparr>customer_chats = Some [c1 \<mapsto> [sys0]], files = ?f\<rparr>"
  let ?f' = "[history_file c1 \<mapsto> file_bytes [hello, hi], chat_file c1 \<mapsto> file_bytes [sys0]]"
  let ?st' = "\<lparr>customer_chats = Some [c1 \<mapsto> [sys0]], files = ?f'\<rparr>"
  have h2: "session_chat ?st c1 = Some [sys0]"
    by (simp add: session_chat_def)
  have h3: "role sys0 = ascii ''system''" by simp
  have h4: "load_history ?f c1 = Inr (Some [hello, hi])"
    by (simp add: load_history_file_bytes ascii_chat)
  then have h4': "load_history (files ?st) c1 = Inr (Some [hello, hi])" by simp
  have h5: "new_chat sp0 c1 ?st = Inr ?st'"
    by (simp add: new_chat_def c1_nonempty save_to_history_def os_path_exists_def
          read_json_upd write_json_succeeds c1_history_file_opens save_chat_c1 ascii_chat
          system_message_def Let_def)
  from reset_fresh_conversation_keeps_history [OF c1_nonempty h2 h3 h4' h5]
  have c: "load_history ?f' c1 = Inr (Some [hello, hi])"
    by (simp add: stored_history_def)
  show ?thesis
    by (rule conjI [OF c1_nonempty conjI [OF h2 conjI [OF h3 conjI [OF h4 conjI [OF h5 c]]]]])
qed

text \<open>
  Claim C10: after a call of \<open>save_to_history\<close> that returns, the history record exists
  and reads back as a log, possibly empty.
\<close>

theorem history_exists_after_append:
  assumes "save_to_history f customer_id c = Inr f'"
  shows "os_path_exists f' (history_file customer_id) \<and>
         (\<exists>h. load_history f' customer_id = Inr (Some h))"
proof -
  from assms obtain h where w: "write_json f (history_file customer_id) h = Inr f'"
    by (auto simp add: save_to_history_def Let_def split: sum.splits)
  from exists_write [OF w, of "history_file customer_id"] load_history_write [OF w]
  show ?thesis by simp
qed

theorem history_exists_after_append_witness:
  "save_to_history Map.empty c1 [sys0] = Inr [history_file c1 \<mapsto> ''[]''] \<and>
   os_path_exists [history_file c1 \<mapsto> ''[]''] (history_file c1) \<and>
   (\<exists>h. load_history [history_file c1 \<mapsto> ''[]''] c1 = Inr (Some h)) \<and>
   load_history [history_file c1 \<mapsto> ''[]''] c1 = Inr (Some [])"
proof -
  have h: "save_to_history Map.empty c1 [sys0] = Inr [history_file c1 \<mapsto> ''[]'']"
    by (simp add: save_to_history_def os_path_exists_def write_json_succeeds
          c1_history_file_opens ascii_chat file_bytes_empty)
  note c = history_exists_after_append [OF h]
  have e: "load_history [history_file c1 \<mapsto> ''[]''] c1 = Inr (Some [])"
    using load_history_file_bytes [of "[]" "[history_file c1 \<mapsto> ''[]'']" c1]
    by (simp add: ascii_chat file_bytes_empty)
  show ?thesis by (rule conjI [OF h conjI [OF conjunct1 [OF c] conjI [OF conjunct2 [OF c] e]]])
qed

text \<open>
  Claim C5: for a customer with no active record on disk and no conversation in the session,
  the lazy load yields the conversation of exactly one message, of role \<open>system\<close> and
  with the configured prompt as content; the files are unchanged.
\<close>

theorem ensure_loaded_fresh:
  assumes "customer_id \<noteq> []"
    and "\<not> os_path_exists (files st) (chat_file customer_id)"
    and "session_chat st customer_id = None"
  shows "\<exists>st'. ensure_loaded system_prompt customer_id st = Inr st' \<and>
           session_chat st' customer_id =
             Some [\<lparr>role = ascii ''system'', content = system_prompt\<rparr>] \<and>
           files st' = files st"
  using assms
  by (auto simp add: ensure_loaded_def session_chat_def load_chat_def system_message_def
        Let_def split: option.splits)

theorem ensure_loaded_fresh_witness:
  "c1 \<noteq> [] \<and>
   \<not> os_path_exists Map.empty (chat_file c1) \<and>
   session_chat \<lparr>customer_chats = None, files = Map.empty\<rparr> c1 = None \<and>
   (\<exists>st'. ensure_loaded sp0 c1 \<lparr>customer_chats = None, files = Map.empty\<rparr> = Inr st' \<and>
      session_chat st' c1 = Some [sys0] \<and>
      files st' = files \<lparr>customer_chats = None, files = Map.empty\<rparr>)"
proof -
  let ?st = "\<lparr>customer_chats = None, files = Map.empty\<rparr>"
  have h2: "\<not> os_path_exists (files ?st) (chat_file c1)"
    by (simp add: os_path_exists_def)
  have h3: "session_chat ?st c1 = None"
    by (simp add: session_chat_def)
  have c: "\<exists>st'. ensure_loaded sp0 c1 ?st = Inr st' \<and> session_chat st' c1 = Some [sys0] \<and>
             files st' = files ?st"
    by (rule ensure_loaded_fresh [OF c1_nonempty h2 h3])
  from h2 have h2': "\<not> os_path_exists Map.empty (chat_file c1)" by simp
  show ?thesis by (rule conjI [OF c1_nonempty conjI [OF h2' conjI [OF h3 c]]])
qed

text \<open>
  Claim C9: with an empty customer id a run of the script changes neither the session nor
  the files, whatever the button and the chat box deliver.
\<close>

theorem empty_customer_id_no_operation:
  "script system_prompt b [] clicked submitted st = Inr st"
  by (simp add: script_def ensure_loaded_def new_chat_def handle_user_input_def)

text \<open>
  Claim C4: the stream yields events, each with a choice, and then raises an exception
  of text \<open>e\<close>. Provided the two saves of the conversation do not fail, the handler
  returns: the conversation of the session is the former one, the user message, and an
  assistant message whose content is U+26A0, U+FE0F, \<open>" Error: "\<close> and then \<open>e\<close>; the
  active record exists on disk and holds the same conversation.
\<close>

theorem stream_error_becomes_message:
  assumes "customer_id \<noteq> []" and "text \<noteq> []"
    and "session_chat st customer_id = Some c"
    and "b (c @ [\<lparr>role = ascii ''user'', content = text\<rparr>]) =
           map Yield chunks @ Raise e # rest"
    and "\<forall>ch\<in>set chunks. choices ch \<noteq> []"
    and "save_chat (files st) customer_id (c @ [\<lparr>role = ascii ''user'', content = text\<rparr>]) =
           Inr f1"
    and "save_chat f1 customer_id
           (c @ [\<lparr>role = ascii ''user'', content = text\<rparr>,
                 \<lparr>role = ascii ''assistant'',
                  content = [Abs_uchar 0x26A0, Abs_uchar 0xFE0F] @ ascii '' Error: '' @ e\<rparr>]) =
           Inr f2"
  shows "\<exists>st'. handle_user_input b customer_id (Some text) st = Inr st' \<and>
           session_chat st' customer_id =
             Some (c @ [\<lparr>role = ascii ''user'', content = text\<rparr>,
                        \<lparr>role = ascii ''assistant'',
                         content = [Abs_uchar 0x26A0, Abs_uchar 0xFE0F] @
                                   ascii '' Error: '' @ e\<rparr>]) \<and>
           os_path_exists (files st') (chat_file customer_id) \<and>
           read_json (files st') (chat_file customer_id) =
             Inr (c @ [\<lparr>role = ascii ''user'', content = text\<rparr>,
                        \<lparr>role = ascii ''assistant'',
                         content = [Abs_uchar 0x26A0, Abs_uchar 0xFE0F] @
                                   ascii '' Error: '' @ e\<rparr>])"
proof -
  have r: "stream_reply b (c @ [\<lparr>role = ascii ''user'', content = text\<rparr>]) =
             [Abs_uchar 0x26A0, Abs_uchar 0xFE0F] @ ascii '' Error: '' @ e"
    using stream_reply_raise
      [where b = b and msgs = "c @ [\<lparr>role = ascii ''user'', content = text\<rparr>]",
       OF assms(4,5)]
    by (simp add: error_marker_def)
  from assms(7) have w: "save_chat f1 customer_id
           (c @ [\<lparr>role = ascii ''user'', content = text\<rparr>,
                 \<lparr>role = ascii ''assistant'',
                  content = stream_reply b (c @ [\<lparr>role = ascii ''user'', content = text\<rparr>])\<rparr>]) =
           Inr f2"
    by (simp only: r)
  from handle_user_input_result [OF assms(1,2,3,6) w] obtain st' where
    "handle_user_input b customer_id (Some text) st = Inr st'"
    "session_chat st' customer_id =
       Some (c @ [\<lparr>role = ascii ''user'', content = text\<rparr>,
                  \<lparr>role = ascii ''assistant'',
                   content = stream_reply b (c @ [\<lparr>role = ascii ''user'', content = text\<rparr>])\<rparr>])"
    "files st' = f2"
    by blast
  with read_chat_save_chat [OF assms(7)] r show ?thesis by simp
qed

theorem stream_error_becomes_message_witness:
  "c1 \<noteq> [] \<and> ascii ''Hello'' \<noteq> [] \<and>
   session_chat st1 c1 = Some [sys0] \<and>
   replay (map Yield [Chunk [Choice (Delta (Some (ascii ''Hi'')))]] @
           Raise (ascii ''Connection error.'') # []) ([sys0] @ [hello]) =
     map Yield [Chunk [Choice (Delta (Some (ascii ''Hi'')))]] @
     Raise (ascii ''Connection error.'') # [] \<and>
   save_chat (files st1) c1 ([sys0] @ [hello]) = Inr [chat_file c1 \<mapsto> file_bytes [sys0, hello]] \<and>
   save_chat [chat_file c1 \<mapsto> file_bytes [sys0, hello]] c1
     ([sys0] @ [hello,
                \<lparr>role = ascii ''assistant'',
                 content = [Abs_uchar 0x26A0, Abs_uchar 0xFE0F] @ ascii '' Error: '' @
                           ascii ''Connection error.''\<rparr>]) =
     Inr [chat_file c1 \<mapsto>
            file_bytes [sys0, hello,
             \<lparr>role = ascii ''assistant'',
              content = [Abs_uchar 0x26A0, Abs_uchar 0xFE0F] @ ascii '' Error: '' @
                        ascii ''Connection error.''\<rparr>]] \<and>
   (\<exists>st'. handle_user_input
             (replay (map Yield [Chunk [Choice (Delta (Some (ascii ''Hi'')))]] @
                      Raise (ascii ''Connection error.'') # []))
             c1 (Some (ascii ''Hello'')) st1 = Inr st' \<and>
      session_chat st' c1 =
        Some ([sys0] @ [hello,
                        \<lparr>role = ascii ''assistant'',
                         content = [Abs_uchar 0x26A0, Abs_uchar 0xFE0F] @ ascii '' Error: '' @
                                   ascii ''Connection error.''\<rparr>]) \<and>
      os_path_exists (files st') (chat_file c1) \<and>
      read_json (files st') (chat_file c1) =
        Inr ([sys0] @ [hello,
                       \<lparr>role = ascii ''assistant'',
                        content = [Abs_uchar 0x26A0, Abs_uchar 0xFE0F] @ ascii '' Error: '' @
                                  ascii ''Connection error.''\<rparr>]))"
proof -
  let ?chunks = "[Chunk [Choice (Delta (Some (ascii ''Hi'')))]]"
  let ?b = "replay (map Yield ?chunks @ Raise (ascii ''Connection error.'') # [])"
  let ?err = "\<lparr>role = ascii ''assistant'',
               content = [Abs_uchar 0x26A0, Abs_uchar 0xFE0F] @ ascii '' Error: '' @
                         ascii ''Connection error.''\<rparr>"
  have h4: "?b ([sys0] @ [hello]) =
              map Yield ?chunks @ Raise (ascii ''Connection error.'') # []"
    by (simp add: replay_def)
  have h5: "\<forall>ch\<in>set ?chunks. choices ch \<noteq> []" by simp
  have h6: "save_chat (files st1) c1 ([sys0] @ [hello]) = Inr [chat_file c1 \<mapsto> file_bytes [sys0, hello]]"
    by (simp add: save_chat_c1 ascii_chat)
  have d: "encodable_chat ([sys0, hello] @ [?err])"
    by (simp add: encodable_chat_def ascii_encodable encodable_simps is_surrogate_def)
  have h7: "save_chat [chat_file c1 \<mapsto> file_bytes [sys0, hello]] c1 ([sys0] @ [hello, ?err]) =
              Inr [chat_file c1 \<mapsto> file_bytes [sys0, hello, ?err]]"
    using save_chat_c1 [OF d, of "[chat_file c1 \<mapsto> file_bytes [sys0, hello]]"] by simp
  note c = stream_error_becomes_message
    [where b = "?b" and c = "[sys0]" and chunks = "?chunks" and rest = "[]",
     OF c1_nonempty hello_nonempty st1_chat h4 h5 h6 h7]
  show ?thesis
    by (rule conjI [OF c1_nonempty conjI [OF hello_nonempty conjI [OF st1_chat
          conjI [OF h4 conjI [OF h6 conjI [OF h7 c]]]]]])
qed

text \<open>
  Claim C6 at a stream whose second event has no choice: \<open>chunk.choices[0]\<close> raises
  \<open>IndexError\<close>, the text received so far is dropped, and the message stored is the
  error text, where the concatenation of the deltas is \<open>"Hi there"\<close>.
\<close>

theorem event_without_choice_stores_error:
  "handle_user_input
     (replay [Yield (Chunk [Choice (Delta (Some (ascii ''Hi'')))]),
              Yield (Chunk []),
              Yield (Chunk [Choice (Delta (Some (ascii '' there'')))])])
     c1 (Some (ascii ''Hello'')) st1 =
     Inr \<lparr>customer_chats =
            Some [c1 \<mapsto>
                    [sys0, hello,
                     \<lparr>role = ascii ''assistant'',
                      content = [Abs_uchar 0x26A0, Abs_uchar 0xFE0F] @
                                ascii '' Error: list index out of range''\<rparr>]],
          files =
            [chat_file c1 \<mapsto>
               file_bytes [sys0, hello,
                \<lparr>role = ascii ''assistant'',
                 content = [Abs_uchar 0x26A0, Abs_uchar 0xFE0F] @
                           ascii '' Error: list index out of range''\<rparr>]]\<rparr> \<and>
   concat (map delta_text
             [Chunk [Choice (Delta (Some (ascii ''Hi'')))],
              Chunk [],
              Chunk [Choice (Delta (Some (ascii '' there'')))]]) = ascii ''Hi there''"
proof -
  let ?b = "replay [Yield (Chunk [Choice (Delta (Some (ascii ''Hi'')))]),
                    Yield (Chunk []),
                    Yield (Chunk [Choice (Delta (Some (ascii '' there'')))])]"
  let ?err = "\<lparr>role = ascii ''assistant'',
               content = [Abs_uchar 0x26A0, Abs_uchar 0xFE0F] @
                         ascii '' Error: list index out of range''\<rparr>"
  have r: "stream_reply ?b [sys0, hello] =
             [Abs_uchar 0x26A0, Abs_uchar 0xFE0F] @ ascii '' Error: list index out of range''"
    by (simp add: stream_reply_def replay_def error_marker_def ascii_def)
  have d: "encodable_chat [sys0, hello, ?err]"
    by (simp add: encodable_chat_def ascii_encodable encodable_simps is_surrogate_def)
  have a: "handle_user_input ?b c1 (Some (ascii ''Hello'')) st1 =
             Inr \<lparr>customer_chats = Some [c1 \<mapsto> [sys0, hello, ?err]],
                  files = [chat_file c1 \<mapsto> file_bytes [sys0, hello, ?err]]\<rparr>"
    using d
    by (simp add: handle_user_input_def c1_nonempty hello_nonempty r save_chat_c1 ascii_chat
          Let_def)
  have b: "concat (map delta_text
             [Chunk [Choice (Delta (Some (ascii ''Hi'')))],
              Chunk [],
              Chunk [Choice (Delta (Some (ascii '' there'')))]]) = ascii ''Hi there''"
    by (simp add: delta_text_def ascii_def)
  show ?thesis by (rule conjI [OF a b])
qed

text \<open>
  The bytes written for the conversation of one user message whose content is U+00E9
  and a line feed: the layout of \<open>indent=2\<close>, the character U+00E9 as the two bytes
  \<open>0xC3 0xA9\<close>, the line feed as the escape \<open>\n\<close>.
\<close>

lemma file_bytes_example:
  "concat (map utf8_char
     (json_dumps [\<lparr>role = ascii ''user'', content = [Abs_uchar 0xE9, Abs_uchar 0x0A]\<rparr>])) =
   [91, 10, 32, 32, 123, 10, 32, 32, 32, 32, 34, 114, 111, 108, 101, 34, 58, 32,
    34, 117, 115, 101, 114, 34, 44, 10, 32, 32, 32, 32,
    34, 99, 111, 110, 116, 101, 110, 116, 34, 58, 32, 34, 195, 169, 92, 110, 34, 10,
    32, 32, 125, 10, 93]"
  by (simp add: json_dumps_def dump_message_def encode_basestring_def escape_char_def
        newline_def ascii_def utf8_char_def Let_def)

text \<open>
  Claim C8: when \<open>save_chat\<close> returns, the active record exists and \<open>load_chat\<close> reads
  from it the conversation that was saved, whatever characters its strings hold.
\<close>

theorem save_load_round_trip:
  assumes "save_chat f customer_id c = Inr f'"
  shows "os_path_exists f' (chat_file customer_id) \<and>
         read_json f' (chat_file customer_id) = Inr c \<and>
         load_chat system_prompt f' customer_id = Inr c"
  using read_chat_save_chat [OF assms] load_chat_save_chat [OF assms, of system_prompt]
  by simp

theorem save_load_round_trip_witness:
  "save_chat Map.empty c1
     [sys0,
      \<lparr>role = ascii ''user'',
       content = [Abs_uchar 0x47, Abs_uchar 0xFC, Abs_uchar 0xDF, Abs_uchar 0x4E16,
                  Abs_uchar 0x754C, Abs_uchar 0x1F600, Abs_uchar 0x22, Abs_uchar 0x5C,
                  Abs_uchar 0x0A, Abs_uchar 0x0D, Abs_uchar 0x01, Abs_uchar 0x7F,
                  Abs_uchar 0x2028, Abs_uchar 0xFFFF, Abs_uchar 0x10FFFF]\<rparr>] =
     Inr [chat_file c1 \<mapsto>
            file_bytes
              [sys0,
               \<lparr>role = ascii ''user'',
                content = [Abs_uchar 0x47, Abs_uchar 0xFC, Abs_uchar 0xDF, Abs_uchar 0x4E16,
                           Abs_uchar 0x754C, Abs_uchar 0x1F600, Abs_uchar 0x22, Abs_uchar 0x5C,
                           Abs_uchar 0x0A, Abs_uchar 0x0D, Abs_uchar 0x01, Abs_uchar 0x7F,
                           Abs_uchar 0x2028, Abs_uchar 0xFFFF, Abs_uchar 0x10FFFF]\<rparr>]] \<and>
   os_path_exists
     [chat_file c1 \<mapsto>
        file_bytes
          [sys0,
           \<lparr>role = ascii ''user'',
            content = [Abs_uchar 0x47, Abs_uchar 0xFC, Abs_uchar 0xDF, Abs_uchar 0x4E16,
                       Abs_uchar 0x754C, Abs_uchar 0x1F600, Abs_uchar 0x22, Abs_uchar 0x5C,
                       Abs_uchar 0x0A, Abs_uchar 0x0D, Abs_uchar 0x01, Abs_uchar 0x7F,
                       Abs_uchar 0x2028, Abs_uchar 0xFFFF, Abs_uchar 0x10FFFF]\<rparr>]]
     (chat_file c1) \<and>
   read_json
     [chat_file c1 \<mapsto>
        file_bytes
          [sys0,
           \<lparr>role = ascii ''user'',
            content = [Abs_uchar 0x47, Abs_uchar 0xFC, Abs_uchar 0xDF, Abs_uchar 0x4E16,
                       Abs_uchar 0x754C, Abs_uchar 0x1F600, Abs_uchar 0x22, Abs_uchar 0x5C,
                       Abs_uchar 0x0A, Abs_uchar 0x0D, Abs_uchar 0x01, Abs_uchar 0x7F,
                       Abs_uchar 0x2028, Abs_uchar 0xFFFF, Abs_uchar 0x10FFFF]\<rparr>]]
     (chat_file c1) =
     Inr [sys0,
          \<lparr>role = ascii ''user'',
           content = [Abs_uchar 0x47, Abs_uchar 0xFC, Abs_uchar 0xDF, Abs_uchar 0x4E16,
                      Abs_uchar 0x754C, Abs_uchar 0x1F600, Abs_uchar 0x22, Abs_uchar 0x5C,
                      Abs_uchar 0x0A, Abs_uchar 0x0D, Abs_uchar 0x01, Abs_uchar 0x7F,
                      Abs_uchar 0x2028, Abs_uchar 0xFFFF, Abs_uchar 0x10FFFF]\<rparr>] \<and>
   load_chat (ascii ''Other prompt'')
     [chat_file c1 \<mapsto>
        file_bytes
          [sys0,
           \<lparr>role = ascii ''user'',
            content = [Abs_uchar 0x47, Abs_uchar 0xFC, Abs_uchar 0xDF, Abs_uchar 0x4E16,
                       Abs_uchar 0x754C, Abs_uchar 0x1F600, Abs_uchar 0x22, Abs_uchar 0x5C,
                       Abs_uchar 0x0A, Abs_uchar 0x0D, Abs_uchar 0x01, Abs_uchar 0x7F,
                       Abs_uchar 0x2028, Abs_uchar 0xFFFF, Abs_uchar 0x10FFFF]\<rparr>]] c1 =
     Inr [sys0,
          \<lparr>role = ascii ''user'',
           content = [Abs_uchar 0x47, Abs_uchar 0xFC, Abs_uchar 0xDF, Abs_uchar 0x4E16,
                      Abs_uchar 0x754C, Abs_uchar 0x1F600, Abs_uchar 0x22, Abs_uchar 0x5C,
                      Abs_uchar 0x0A, Abs_uchar 0x0D, Abs_uchar 0x01, Abs_uchar 0x7F,
                      Abs_uchar 0x2028, Abs_uchar 0xFFFF, Abs_uchar 0x10FFFF]\<rparr>]"
proof -
  let ?c = "[sys0,
      \<lparr>role = ascii ''user'',
       content = [Abs_uchar 0x47, Abs_uchar 0xFC, Abs_uchar 0xDF, Abs_uchar 0x4E16,
                  Abs_uchar 0x754C, Abs_uchar 0x1F600, Abs_uchar 0x22, Abs_uchar 0x5C,
                  Abs_uchar 0x0A, Abs_uchar 0x0D, Abs_uchar 0x01, Abs_uchar 0x7F,
                  Abs_uchar 0x2028, Abs_uchar 0xFFFF, Abs_uchar 0x10FFFF]\<rparr>]"
  have e: "encodable_chat ?c"
    by (simp add: encodable_chat_def ascii_encodable encodable_simps is_surrogate_def)
  have h: "save_chat Map.empty c1 ?c = Inr [chat_file c1 \<mapsto> file_bytes ?c]"
    by (rule save_chat_c1 [OF e])
  note c = save_load_round_trip [OF h, of "ascii ''Other prompt''"]
  show ?thesis by (rule conjI [OF h c])
qed

end
